theory Spec2Isabelle
  imports Complex_Main
begin

section \<open>JavaScript values, strings and numbers\<close>

text \<open>
  The data-quality pipeline of the Collector Dashboard (\<^verbatim>\<open>src/utils/dataQuality.ts\<close>,
  \<^verbatim>\<open>src/utils/normalization.ts\<close>, \<^verbatim>\<open>src/utils/calculations.ts\<close>) works on loosely typed
  rows. A field of a row is any JavaScript value; the code inspects it with truthiness,
  \<^verbatim>\<open>typeof\<close>, \<^verbatim>\<open>instanceof Date\<close>, \<^verbatim>\<open>Array.isArray\<close> and \<^verbatim>\<open>String()\<close>.

  Modelling conventions:
  \<^item> a string is a list of characters, and a character is a code unit below 256 (the
    characters \<^verbatim>\<open>U+0000\<close> to \<^verbatim>\<open>U+00FF\<close>); strings with other code units are outside the
    model. On these strings white space, word characters, digits and \<^verbatim>\<open>toLowerCase\<close> are
    those of ECMAScript; so is \<^verbatim>\<open>toUpperCase\<close>, but for the three characters whose upper
    case is not one code unit below 256 (\<^verbatim>\<open>U+00B5\<close>, \<^verbatim>\<open>U+00DF\<close>, \<^verbatim>\<open>U+00FF\<close>), which the
    model leaves as they are;
  \<^item> a number is \<^verbatim>\<open>NaN\<close> or a finite value, held as an exact rational (the rounding of
    IEEE doubles and the two infinities are not modelled);
  \<^item> a \<^verbatim>\<open>Date\<close> is its time value in milliseconds since the epoch, \<open>None\<close> for an
    Invalid Date;
  \<^item> any other object is opaque, an array is the list of its elements.
\<close>

datatype jsnum = NaN | Fin rat

datatype jsval =
    JUndefined
  | JNull
  | JBool bool
  | JNum jsnum
  | JStr string
  | JDate "int option"
  | JArray "jsval list"
  | JObject

text \<open>
  What the JavaScript engine and its locale decide is a parameter of the model: the clock,
  the \<^verbatim>\<open>Date\<close> parser and printer, the messages of the exceptions the engine throws,
  the collation of \<^verbatim>\<open>localeCompare\<close>, and the local-time day arithmetic of
  \<^verbatim>\<open>subDays\<close> (from the \<^verbatim>\<open>date-fns\<close> library).
\<close>

record engine =
  now :: int
  tenYearsAgo :: int
  dateParse :: "string \<Rightarrow> int option"
  dateToString :: "int option \<Rightarrow> string"
  jsonErrorMessage :: "string \<Rightarrow> string"
  typeErrorMessage :: "string \<Rightarrow> string"
  localeCompare :: "string \<Rightarrow> string \<Rightarrow> int"
  subDays :: "int \<Rightarrow> nat \<Rightarrow> int"

subsection \<open>Characters and strings\<close>

text \<open>
  The white space of \<^verbatim>\<open>\s\<close> and of \<^verbatim>\<open>String.prototype.trim\<close>: tab, line feed, vertical
  tab, form feed, carriage return, space and the no-break space \<^verbatim>\<open>U+00A0\<close>.
\<close>

definition isSpace :: "char \<Rightarrow> bool" where
  "isSpace c = (c \<in> set [CHR '' '', CHR 0x09, CHR 0x0A, CHR 0x0B, CHR 0x0C, CHR 0x0D, CHR 0xA0])"

definition isWordChar :: "char \<Rightarrow> bool" where
  "isWordChar c =
     (c \<in> set ''abcdefghijklmnopqrstuvwxyzABCDEFGHIJKLMNOPQRSTUVWXYZ0123456789_'')"

definition isDigit :: "char \<Rightarrow> bool" where
  "isDigit c = (c \<in> set ''0123456789'')"

definition isLineTerminator :: "char \<Rightarrow> bool" where
  "isLineTerminator c = (c \<in> set [CHR 0x0A, CHR 0x0D])"

text \<open>
  The letters that have two cases: \<^verbatim>\<open>A-Z\<close> and \<^verbatim>\<open>U+00C0\<close> to \<^verbatim>\<open>U+00DE\<close> without the
  multiplication sign, with \<^verbatim>\<open>a-z\<close> and \<^verbatim>\<open>U+00E0\<close> to \<^verbatim>\<open>U+00FE\<close> without the division
  sign.
\<close>

definition upperCaseLetters :: string where
  "upperCaseLetters =
     ''ABCDEFGHIJKLMNOPQRSTUVWXYZ'' @
     [CHR 0xC0, CHR 0xC1, CHR 0xC2, CHR 0xC3, CHR 0xC4, CHR 0xC5, CHR 0xC6,
      CHR 0xC7, CHR 0xC8, CHR 0xC9, CHR 0xCA, CHR 0xCB, CHR 0xCC, CHR 0xCD,
      CHR 0xCE, CHR 0xCF, CHR 0xD0, CHR 0xD1, CHR 0xD2, CHR 0xD3, CHR 0xD4,
      CHR 0xD5, CHR 0xD6, CHR 0xD8, CHR 0xD9, CHR 0xDA, CHR 0xDB, CHR 0xDC,
      CHR 0xDD, CHR 0xDE]"

definition lowerCaseLetters :: string where
  "lowerCaseLetters =
     ''abcdefghijklmnopqrstuvwxyz'' @
     [CHR 0xE0, CHR 0xE1, CHR 0xE2, CHR 0xE3, CHR 0xE4, CHR 0xE5, CHR 0xE6,
      CHR 0xE7, CHR 0xE8, CHR 0xE9, CHR 0xEA, CHR 0xEB, CHR 0xEC, CHR 0xED,
      CHR 0xEE, CHR 0xEF, CHR 0xF0, CHR 0xF1, CHR 0xF2, CHR 0xF3, CHR 0xF4,
      CHR 0xF5, CHR 0xF6, CHR 0xF8, CHR 0xF9, CHR 0xFA, CHR 0xFB, CHR 0xFC,
      CHR 0xFD, CHR 0xFE]"

definition toLowerChar :: "char \<Rightarrow> char" where
  "toLowerChar c =
     (case map_of (zip upperCaseLetters lowerCaseLetters) c of Some d \<Rightarrow> d | None \<Rightarrow> c)"

definition toUpperChar :: "char \<Rightarrow> char" where
  "toUpperChar c =
     (case map_of (zip lowerCaseLetters upperCaseLetters) c of Some d \<Rightarrow> d | None \<Rightarrow> c)"

definition toLowerCase :: "string \<Rightarrow> string" where
  "toLowerCase s = map toLowerChar s"

definition trim :: "string \<Rightarrow> string" where
  "trim s = dropWhile isSpace (rev (dropWhile isSpace (rev s)))"

fun startsWith :: "string \<Rightarrow> string \<Rightarrow> bool" where
  "startsWith s [] = True"
| "startsWith [] (p # ps) = False"
| "startsWith (c # cs) (p # ps) = (c = p \<and> startsWith cs ps)"

definition endsWith :: "string \<Rightarrow> string \<Rightarrow> bool" where
  "endsWith s p = startsWith (rev s) (rev p)"

fun includesStr :: "string \<Rightarrow> string \<Rightarrow> bool" where
  "includesStr [] p = (p = [])"
| "includesStr (c # cs) p = (startsWith (c # cs) p \<or> includesStr cs p)"

text \<open>\<^verbatim>\<open>s.indexOf(p)\<close>; \<open>None\<close> stands for \<^verbatim>\<open>-1\<close>.\<close>

fun indexOf :: "string \<Rightarrow> string \<Rightarrow> nat option" where
  "indexOf [] p = (if p = [] then Some 0 else None)"
| "indexOf (c # cs) p =
     (if startsWith (c # cs) p then Some 0 else map_option Suc (indexOf cs p))"

text \<open>\<^verbatim>\<open>parts.join(sep)\<close>.\<close>

fun join :: "string \<Rightarrow> string list \<Rightarrow> string" where
  "join sep [] = []"
| "join sep [x] = x"
| "join sep (x # y # ys) = x @ sep @ join sep (y # ys)"

text \<open>
  \<^verbatim>\<open>s.split(c)\<close> for a one-character separator, and \<^verbatim>\<open>s.split(/[...]+/)\<close> for a
  separator that is a maximal run of characters of a class: both keep the empty pieces at
  the ends.
\<close>

fun splitChar :: "char \<Rightarrow> string \<Rightarrow> string list" where
  "splitChar d [] = [[]]"
| "splitChar d (c # cs) =
     (if c = d then [] # splitChar d cs
      else (case splitChar d cs of
              [] \<Rightarrow> [[c]]
            | p # ps \<Rightarrow> (c # p) # ps))"

fun splitRunsFrom :: "(char \<Rightarrow> bool) \<Rightarrow> bool \<Rightarrow> string \<Rightarrow> string list" where
  "splitRunsFrom sep inRun [] = [[]]"
| "splitRunsFrom sep inRun (c # cs) =
     (if sep c then (if inRun then splitRunsFrom sep True cs else [] # splitRunsFrom sep True cs)
      else (case splitRunsFrom sep False cs of
              [] \<Rightarrow> [[c]]
            | p # ps \<Rightarrow> (c # p) # ps))"

definition splitRuns :: "(char \<Rightarrow> bool) \<Rightarrow> string \<Rightarrow> string list" where
  "splitRuns sep s = splitRunsFrom sep False s"

subsection \<open>Numbers as text\<close>

definition digitChar :: "int \<Rightarrow> char" where
  "digitChar d = ''0123456789'' ! nat (d mod 10)"

text \<open>The decimal digits of a non-negative integer.\<close>

function showInt :: "int \<Rightarrow> string" where
  "showInt n = (if n < 10 then [digitChar n] else showInt (n div 10) @ [digitChar (n mod 10)])"
  by pat_completeness auto
termination
  by (relation "measure nat") auto

declare showInt.simps [simp del]

definition showNat :: "nat \<Rightarrow> string" where
  "showNat n = showInt (int n)"

text \<open>
  The digits after the decimal point of the fraction \<open>num / den\<close> (with
  \<open>0 \<le> num < den\<close>), at most \<open>fuel\<close> of them (\<^verbatim>\<open>Number.prototype.toString\<close> prints at
  most 17 significant digits).
\<close>

fun fracDigits :: "nat \<Rightarrow> int \<Rightarrow> int \<Rightarrow> string" where
  "fracDigits 0 num den = []"
| "fracDigits (Suc fuel) num den =
     (if num = 0 then []
      else digitChar ((num * 10) div den) # fracDigits fuel ((num * 10) mod den) den)"

text \<open>
  \<^verbatim>\<open>Number.prototype.toString\<close> in plain decimal notation (the exponent notation of very
  large and very small magnitudes is not modelled).
\<close>

definition numToString :: "jsnum \<Rightarrow> string" where
  "numToString x =
     (case x of
        NaN \<Rightarrow> ''NaN''
      | Fin r \<Rightarrow>
          (case quotient_of r of
             (num, den) \<Rightarrow>
               (if num < 0 then ''-'' else []) @ showInt (\<bar>num\<bar> div den) @
               (if \<bar>num\<bar> mod den = 0 then [] else ''.'' @ fracDigits 17 (\<bar>num\<bar> mod den) den)))"

subsection \<open>Truthiness, typeof, String()\<close>

fun truthy :: "jsval \<Rightarrow> bool" where
  "truthy JUndefined = False"
| "truthy JNull = False"
| "truthy (JBool b) = b"
| "truthy (JNum NaN) = False"
| "truthy (JNum (Fin r)) = (r \<noteq> 0)"
| "truthy (JStr s) = (s \<noteq> [])"
| "truthy (JDate t) = True"
| "truthy (JArray xs) = True"
| "truthy JObject = True"

fun typeof :: "jsval \<Rightarrow> string" where
  "typeof JUndefined = ''undefined''"
| "typeof JNull = ''object''"
| "typeof (JBool b) = ''boolean''"
| "typeof (JNum n) = ''number''"
| "typeof (JStr s) = ''string''"
| "typeof (JDate t) = ''object''"
| "typeof (JArray xs) = ''object''"
| "typeof JObject = ''object''"

fun toStringJS :: "engine \<Rightarrow> jsval \<Rightarrow> string" where
  "toStringJS E JUndefined = ''undefined''"
| "toStringJS E JNull = ''null''"
| "toStringJS E (JBool b) = (if b then ''true'' else ''false'')"
| "toStringJS E (JNum n) = numToString n"
| "toStringJS E (JStr s) = s"
| "toStringJS E (JDate t) = dateToString E t"
| "toStringJS E (JArray xs) =
     join '','' (map (\<lambda>x. if x = JUndefined \<or> x = JNull then [] else toStringJS E x) xs)"
| "toStringJS E JObject = ''[object Object]''"

text \<open>
  The idiom \<^verbatim>\<open>typeof v === 'string' ? v : String(v || '')\<close> that the normalisers and
  \<^verbatim>\<open>meetsCriteria\<close> apply to a value.
\<close>

definition ensureString :: "engine \<Rightarrow> jsval \<Rightarrow> string" where
  "ensureString E v =
     (case v of JStr s \<Rightarrow> s | _ \<Rightarrow> if truthy v then toStringJS E v else [])"

section \<open>Regular expressions\<close>

text \<open>
  The normalisers are sequences of \<^verbatim>\<open>String.prototype.replace\<close> and \<^verbatim>\<open>RegExp.test\<close>
  calls. The expressions they use are written here as terms of a small regular-expression
  type and run by a matcher with the priorities of the backtracking matcher of ECMAScript:
  at a position (the character before it and the rest of the text), \<open>ends\<close> lists every
  way the expression can match there, as the position after the match, the preferred one
  first (left alternative first, longest repetition first).
\<close>

datatype cclass = CSpace | CDigit | CAny | COneOf string | CNoneOf string | CNotWordOrSpace

fun cmem :: "cclass \<Rightarrow> char \<Rightarrow> bool" where
  "cmem CSpace c = isSpace c"
| "cmem CDigit c = isDigit c"
| "cmem CAny c = (\<not> isLineTerminator c)"
| "cmem (COneOf cs) c = (c \<in> set cs)"
| "cmem (CNoneOf cs) c = (c \<notin> set cs)"
| "cmem CNotWordOrSpace c = (\<not> isWordChar c \<and> \<not> isSpace c)"

datatype re =
    Eps
  | Ch char
  | ChI char
  | Cls cclass
  | Star cclass
  | Seq re re
  | Alt re re
  | Bol
  | Eol
  | WordB

type_synonym pos = "char option \<times> string"

fun starEnds :: "cclass \<Rightarrow> char option \<Rightarrow> string \<Rightarrow> pos list" where
  "starEnds cl p [] = [(p, [])]"
| "starEnds cl p (c # cs) =
     (if cmem cl c then starEnds cl (Some c) cs @ [(p, c # cs)] else [(p, c # cs)])"

definition isWordBefore :: "char option \<Rightarrow> bool" where
  "isWordBefore p = (case p of None \<Rightarrow> False | Some c \<Rightarrow> isWordChar c)"

definition isWordAfter :: "string \<Rightarrow> bool" where
  "isWordAfter s = (case s of [] \<Rightarrow> False | c # _ \<Rightarrow> isWordChar c)"

fun ends :: "re \<Rightarrow> char option \<Rightarrow> string \<Rightarrow> pos list" where
  "ends Eps p s = [(p, s)]"
| "ends (Ch c) p s = (case s of [] \<Rightarrow> [] | x # xs \<Rightarrow> if x = c then [(Some x, xs)] else [])"
| "ends (ChI c) p s =
     (case s of [] \<Rightarrow> [] | x # xs \<Rightarrow> if toLowerChar x = toLowerChar c then [(Some x, xs)] else [])"
| "ends (Cls cl) p s = (case s of [] \<Rightarrow> [] | x # xs \<Rightarrow> if cmem cl x then [(Some x, xs)] else [])"
| "ends (Star cl) p s = starEnds cl p s"
| "ends (Seq a b) p s = concat (map (\<lambda>(q, t). ends b q t) (ends a p s))"
| "ends (Alt a b) p s = ends a p s @ ends b p s"
| "ends Bol p s = (if p = None then [(p, s)] else [])"
| "ends Eol p s = (if s = [] then [(p, s)] else [])"
| "ends WordB p s = (if isWordBefore p \<noteq> isWordAfter s then [(p, s)] else [])"

text \<open>\<^verbatim>\<open>s.replace(r, rep)\<close> for an expression without the \<^verbatim>\<open>g\<close> flag: the leftmost match.\<close>

fun replaceFirstFrom :: "re \<Rightarrow> string \<Rightarrow> char option \<Rightarrow> string \<Rightarrow> string" where
  "replaceFirstFrom r rep p [] = (case ends r p [] of [] \<Rightarrow> [] | e # _ \<Rightarrow> rep)"
| "replaceFirstFrom r rep p (c # cs) =
     (case ends r p (c # cs) of
        [] \<Rightarrow> c # replaceFirstFrom r rep (Some c) cs
      | e # _ \<Rightarrow> rep @ snd e)"

definition replaceFirst :: "re \<Rightarrow> string \<Rightarrow> string \<Rightarrow> string" where
  "replaceFirst r rep s = replaceFirstFrom r rep None s"

text \<open>
  \<^verbatim>\<open>s.replace(r, rep)\<close> with the \<^verbatim>\<open>g\<close> flag: every match, left to right, the search going
  on after the match (one character further after an empty match).
\<close>

function replaceAllFrom :: "re \<Rightarrow> string \<Rightarrow> char option \<Rightarrow> string \<Rightarrow> string" where
  "replaceAllFrom r rep p s =
     (case ends r p s of
        [] \<Rightarrow> (case s of [] \<Rightarrow> [] | c # cs \<Rightarrow> c # replaceAllFrom r rep (Some c) cs)
      | e # _ \<Rightarrow>
          (if length (snd e) < length s then rep @ replaceAllFrom r rep (fst e) (snd e)
           else rep @ (case s of [] \<Rightarrow> [] | c # cs \<Rightarrow> c # replaceAllFrom r rep (Some c) cs)))"
  by pat_completeness auto
termination
  by (relation "measure (\<lambda>(r, rep, p, s). length s)") auto

declare replaceAllFrom.simps [simp del]

definition replaceAll :: "re \<Rightarrow> string \<Rightarrow> string \<Rightarrow> string" where
  "replaceAll r rep s = replaceAllFrom r rep None s"

text \<open>\<^verbatim>\<open>r.test(s)\<close>: the expression matches at some position.\<close>

fun testFrom :: "re \<Rightarrow> char option \<Rightarrow> string \<Rightarrow> bool" where
  "testFrom r p [] = (ends r p [] \<noteq> [])"
| "testFrom r p (c # cs) = (ends r p (c # cs) \<noteq> [] \<or> testFrom r (Some c) cs)"

definition testRe :: "re \<Rightarrow> string \<Rightarrow> bool" where
  "testRe r s = testFrom r None s"

subsection \<open>Building expressions\<close>

definition seqs :: "re list \<Rightarrow> re" where
  "seqs rs = foldr Seq rs Eps"

fun alts :: "re list \<Rightarrow> re" where
  "alts [] = Eps"
| "alts [r] = r"
| "alts (r # rs) = Alt r (alts rs)"

definition plus :: "cclass \<Rightarrow> re" where
  "plus cl = Seq (Cls cl) (Star cl)"

definition opt :: "re \<Rightarrow> re" where
  "opt r = Alt r Eps"

text \<open>A literal under the \<^verbatim>\<open>i\<close> flag.\<close>

definition litI :: "string \<Rightarrow> re" where
  "litI s = seqs (map ChI s)"

text \<open>
  A table key spliced unescaped into \<^verbatim>\<open>new RegExp(`\\b${key}\\b`, 'gi')\<close>: a dot in the key is
  the wildcard of the expression, every other character of the tables stands for itself.
\<close>

definition keyPattern :: "string \<Rightarrow> re" where
  "keyPattern key = seqs (map (\<lambda>c. if c = CHR ''.'' then Cls CAny else ChI c) key)"

definition wordRe :: "re \<Rightarrow> re" where
  "wordRe r = seqs [WordB, r, WordB]"

section \<open>Normalisation of county names\<close>

text \<open>\<^verbatim>\<open>part.charAt(0).toUpperCase() + part.slice(1)\<close>\<close>

definition capitalize :: "string \<Rightarrow> string" where
  "capitalize part = (case part of [] \<Rightarrow> [] | c # cs \<Rightarrow> toUpperChar c # cs)"

text \<open>\<^verbatim>\<open>/,\s*(florida|fl|california|ca|texas|tx|new york|ny)\s*$/i\<close>\<close>

definition stateSuffixRe :: re where
  "stateSuffixRe =
     seqs [Ch CHR '','', Star CSpace,
           alts (map litI [''florida'', ''fl'', ''california'', ''ca'', ''texas'', ''tx'',
                           ''new york'', ''ny'']),
           Star CSpace, Eol]"

text \<open>\<^verbatim>\<open>/\s+county\s*$/i\<close>\<close>

definition countySuffixRe :: re where
  "countySuffixRe = seqs [plus CSpace, litI ''county'', Star CSpace, Eol]"

text \<open>\<^verbatim>\<open>/^miami\s*-?\s*dade(\s+county)?$/i\<close>\<close>

definition miamiDadeRe :: re where
  "miamiDadeRe =
     seqs [Bol, litI ''miami'', Star CSpace, opt (Ch CHR ''-''), Star CSpace, litI ''dade'',
           opt (Seq (plus CSpace) (litI ''county'')), Eol]"

text \<open>\<^verbatim>\<open>/\bMiami\s+Dade\b/gi\<close>\<close>

definition miamiDadeFixRe :: re where
  "miamiDadeFixRe = wordRe (seqs [litI ''Miami'', plus CSpace, litI ''Dade''])"

definition countyMap :: "(string \<times> string) list" where
  "countyMap =
     [(''nyc'', ''new york''),
      (''ny'', ''new york''),
      (''new york city'', ''new york''),
      (''st.'', ''saint''),
      (''st'', ''saint''),
      (''ft.'', ''fort''),
      (''ft'', ''fort'')]"

definition applyMappings :: "(string \<times> string) list \<Rightarrow> string \<Rightarrow> string" where
  "applyMappings table s =
     foldl (\<lambda>normalized (key, value). replaceAll (wordRe (keyPattern key)) value normalized)
       s table"

text \<open>
  \<^verbatim>\<open>normalizeCounty\<close> after the guard \<^verbatim>\<open>if (!county) return 'Unknown'\<close> and the
  conversion to a string.
\<close>

definition normalizeCountyStr :: "string \<Rightarrow> string" where
  "normalizeCountyStr countyStr =
     (let n0 = toLowerCase (trim countyStr);
          n1 = trim (replaceFirst stateSuffixRe [] n0);
          n2 = trim (replaceFirst countySuffixRe [] n1);
          n3 = (if n2 = ''dade'' then ''miami-dade'' else n2);
          n4 = replaceFirst miamiDadeRe ''miami-dade'' n3;
          n5 = applyMappings countyMap n4;
          parts = filter (\<lambda>p. length p > 0) (splitRuns (\<lambda>c. isSpace c \<or> c = CHR ''-'') n5);
          capitalized = map capitalize parts;
          hadHyphen = includesStr n5 ''-'';
          n6 = (if hadHyphen then join ''-'' capitalized else join '' '' capitalized)
      in replaceAll miamiDadeFixRe ''Miami-Dade'' n6)"

definition normalizeCounty :: "engine \<Rightarrow> jsval \<Rightarrow> string" where
  "normalizeCounty E county =
     (if \<not> truthy county then ''Unknown'' else normalizeCountyStr (ensureString E county))"

section \<open>Normalisation of lender names\<close>

text \<open>
  A table key after \<^verbatim>\<open>key.replace(/[.*+?^${}()|[\]\\]/g, '\\$&')\<close>: every character stands
  for itself.
\<close>

definition escapedPattern :: "string \<Rightarrow> re" where
  "escapedPattern key = litI key"

text \<open>\<^verbatim>\<open>/[.,;:!?'"()]/g\<close>\<close>

definition punctuationRe :: re where
  "punctuationRe = Cls (COneOf (''.,;:!?()'' @ [CHR 0x27, CHR 0x22]))"

text \<open>\<^verbatim>\<open>/\b(us|u\.s\.|united states)\b/gi\<close>\<close>

definition unitedStatesRe :: re where
  "unitedStatesRe = wordRe (alts [litI ''us'', litI ''u.s.'', litI ''united states''])"

definition abbreviationMap :: "(string \<times> string) list" where
  "abbreviationMap =
     [(''inc'', ''incorporated''),
      (''inc.'', ''incorporated''),
      (''llc'', ''limited liability company''),
      (''llc.'', ''limited liability company''),
      (''ltd'', ''limited''),
      (''ltd.'', ''limited''),
      (''corp'', ''corporation''),
      (''corp.'', ''corporation''),
      (''co'', ''company''),
      (''co.'', ''company''),
      (''lp'', ''limited partnership''),
      (''lp.'', ''limited partnership''),
      (''llp'', ''limited liability partnership''),
      (''llp.'', ''limited liability partnership''),
      (''na'', ''national association''),
      (''fsa'', ''federal savings association''),
      (''fcu'', ''federal credit union''),
      (''cu'', ''credit union''),
      (''fcb'', ''federal credit bank''),
      (''&'', ''and''),
      (''amp'', ''and''),
      (''mtg'', ''mortgage''),
      (''mtg.'', ''mortgage''),
      (''svc'', ''service''),
      (''svc.'', ''service''),
      (''svcs'', ''services''),
      (''svcs.'', ''services''),
      (''mgmt'', ''management''),
      (''mgmt.'', ''management''),
      (''fin'', ''financial''),
      (''fin.'', ''financial''),
      (''fnd'', ''fund''),
      (''fnd.'', ''fund''),
      (''grp'', ''group''),
      (''grp.'', ''group'')]"

definition pluralMap :: "(string \<times> string) list" where
  "pluralMap =
     [(''banks'', ''bank''),
      (''mortgages'', ''mortgage''),
      (''services'', ''service''),
      (''groups'', ''group''),
      (''companies'', ''company''),
      (''corporations'', ''corporation''),
      (''associations'', ''association''),
      (''unions'', ''union''),
      (''funds'', ''fund''),
      (''trusts'', ''trust'')]"

definition wordVariations :: "(string \<times> string) list" where
  "wordVariations = [(''finance'', ''financial'')]"

definition applyEscapedMappings :: "(string \<times> string) list \<Rightarrow> string \<Rightarrow> string" where
  "applyEscapedMappings table s =
     foldl (\<lambda>normalized (key, value). replaceAll (wordRe (escapedPattern key)) value normalized)
       s table"

text \<open>\<^verbatim>\<open>/^the\s+/i\<close>\<close>

definition thePrefixRe :: re where
  "thePrefixRe = seqs [Bol, litI ''the'', plus CSpace]"

text \<open>\<^verbatim>\<open>/\b(incorporated|corporation|limited liability company|llc|inc|corp)\b/i\<close>\<close>

definition companyTypeRe :: re where
  "companyTypeRe =
     wordRe (alts (map litI [''incorporated'', ''corporation'', ''limited liability company'',
                             ''llc'', ''inc'', ''corp'']))"

text \<open>\<^verbatim>\<open>/\s+company\s*$/i\<close>\<close>

definition companySuffixRe :: re where
  "companySuffixRe = seqs [plus CSpace, litI ''company'', Star CSpace, Eol]"

text \<open>
  The consolidation overrides, in the order of the source: the expression tested and the
  name returned.
\<close>

definition consolidations :: "(re \<times> string) list" where
  "consolidations =
     [(seqs [Bol, litI ''wilmington'', WordB], ''Wilmington''),
      (seqs [Bol, litI ''jpmorgan'', WordB], ''JPMorgan''),
      (seqs [Bol, litI ''wells'', Star CSpace, litI ''fargo'', WordB], ''Wells Fargo''),
      (seqs [Bol, litI ''computershare'', plus CSpace, litI ''trust'', plus CSpace,
             litI ''company'', plus CSpace, litI ''national'', WordB], ''Computer Trust Company''),
      (seqs [Bol, litI ''lincoln'', plus CSpace, litI ''street'', WordB], ''Lincoln Street''),
      (seqs [Bol, litI ''american'', plus CSpace, litI ''general'', plus CSpace, litI ''life'',
             plus CSpace, litI ''insurance'', WordB], ''American General Life''),
      (seqs [litI ''ef'', plus CSpace, litI ''mortgage''], ''EF Mortgage''),
      (seqs [alts [litI ''tryon'', litI ''tyron''], plus CSpace, litI ''street''], ''Tryon Street''),
      (seqs [Bol, litI ''sig'', Star CSpace, litI ''rcrs'', WordB], ''SIG RCRS''),
      (seqs [Bol, litI ''sig'', Star CSpace, litI ''cre'', WordB], ''Sig Cre'')]"

fun firstConsolidation :: "(re \<times> string) list \<Rightarrow> string \<Rightarrow> string option" where
  "firstConsolidation [] s = None"
| "firstConsolidation ((r, name) # rest) s =
     (if testRe r s then Some name else firstConsolidation rest s)"

definition commonWords :: "string list" where
  "commonWords = [''the'', ''of'', ''and'', ''a'', ''an'', ''in'', ''on'', ''at'', ''to'', ''for'']"

text \<open>
  The title-casing callback: \<^verbatim>\<open>normalized\<close> is the text before title-casing, and
  \<^verbatim>\<open>normalized.indexOf(word) > 0\<close> looks the word up as a substring of it.
\<close>

definition titleWord :: "string \<Rightarrow> string \<Rightarrow> string" where
  "titleWord normalized word =
     (if word \<in> set commonWords \<and> (case indexOf normalized word of None \<Rightarrow> False | Some i \<Rightarrow> i > 0)
      then word else capitalize word)"

definition normalizeLenderStr :: "string \<Rightarrow> string" where
  "normalizeLenderStr lenderStr =
     (let n0 = toLowerCase (trim lenderStr);
          n1 = replaceAll punctuationRe [] n0;
          n2 = replaceAll unitedStatesRe ''united states'' n1;
          n3 = applyEscapedMappings abbreviationMap n2;
          n4 = applyMappings pluralMap n3;
          n5 = applyMappings wordVariations n4;
          n6 = replaceFirst thePrefixRe [] n5;
          hasCompanyType = testRe companyTypeRe n6;
          n7 = (if hasCompanyType then replaceFirst companySuffixRe [] n6 else n6);
          n8 = trim (replaceAll (plus CSpace) '' '' n7)
      in (case firstConsolidation consolidations n8 of
            Some name \<Rightarrow> name
          | None \<Rightarrow> join '' '' (map (titleWord n8) (splitChar CHR '' '' n8))))"

definition isDate :: "jsval \<Rightarrow> bool" where
  "isDate v = (case v of JDate t \<Rightarrow> True | _ \<Rightarrow> False)"

definition normalizeLender :: "engine \<Rightarrow> jsval \<Rightarrow> string" where
  "normalizeLender E lender =
     (if \<not> truthy lender then ''Unknown''
      else if isDate lender then ''Unknown''
      else normalizeLenderStr (ensureString E lender))"

section \<open>Rows and processed records\<close>

text \<open>
  A \<^verbatim>\<open>ComplaintRow\<close> is an object with an open set of fields, held as the list of its
  properties in the order of \<^verbatim>\<open>Object.keys\<close>. The array handed to the pipeline is typed
  \<^verbatim>\<open>ComplaintRow[]\<close>, but nothing checks it at run time: an element that is \<^verbatim>\<open>null\<close> or
  \<^verbatim>\<open>undefined\<close> makes the first property read of the validator throw a \<^verbatim>\<open>TypeError\<close>,
  which is the run-time failure the pipeline's \<^verbatim>\<open>try\<close>/\<^verbatim>\<open>catch\<close> is there for.
\<close>

datatype ComplaintRow = RowNull | RowUndefined | Row "(string \<times> jsval) list"

definition getField :: "(string \<times> jsval) list \<Rightarrow> string \<Rightarrow> jsval" where
  "getField fs name = (case map_of fs name of None \<Rightarrow> JUndefined | Some v \<Rightarrow> v)"

text \<open>\<^verbatim>\<open>{...row}\<close>: the own properties of the row, none for \<^verbatim>\<open>null\<close> and \<^verbatim>\<open>undefined\<close>.\<close>

fun spread :: "ComplaintRow \<Rightarrow> (string \<times> jsval) list" where
  "spread RowNull = []"
| "spread RowUndefined = []"
| "spread (Row fs) = fs"

text \<open>
  A \<^verbatim>\<open>ProcessedComplaint\<close> as the pipeline builds it: the properties spread from the raw
  row (\<open>rawFields\<close>), and the properties the validator and the pipeline write over them.
  \<open>upb\<close> and \<open>complaintDate\<close> hold what \<^verbatim>\<open>validateRow\<close> stores there: \<^verbatim>\<open>undefined\<close>
  (\<open>None\<close>), or a number, respectively a \<^verbatim>\<open>Date\<close> with a valid time value.
  \<open>isDuplicate\<close> is not written by the validator, so a record starts with whatever the
  raw row has under that name.
\<close>

record ProcessedComplaint =
  rawFields :: "(string \<times> jsval) list"
  upb :: "jsnum option"
  complaintDate :: "int option"
  isValid :: bool
  errors :: "string list option"
  normalizedCounty :: string
  normalizedLender :: string
  isDuplicate :: jsval

text \<open>\<^verbatim>\<open>a || b\<close> on values.\<close>

definition orElse :: "jsval \<Rightarrow> jsval \<Rightarrow> jsval" where
  "orElse a b = (if truthy a then a else b)"

section \<open>Duplicate detection\<close>

text \<open>\<^verbatim>\<open>normalizeForComparison\<close>\<close>

definition normalizeForComparison :: "engine \<Rightarrow> jsval \<Rightarrow> string" where
  "normalizeForComparison E str =
     (if \<not> truthy str then []
      else (let strValue = ensureString E str
            in replaceAll (Cls CNotWordOrSpace) []
                 (replaceAll (plus CSpace) '' '' (trim (toLowerCase strValue)))))"

subsection \<open>The date part of \<^verbatim>\<open>toISOString\<close>\<close>

text \<open>
  The proleptic Gregorian calendar date (UTC) of a day number counted from 1970-01-01.
\<close>

definition civilFromDays :: "int \<Rightarrow> int \<times> int \<times> int" where
  "civilFromDays days =
     (let z = days + 719468;
          era = z div 146097;
          doe = z - era * 146097;
          yoe = (doe - doe div 1460 + doe div 36524 - doe div 146096) div 365;
          y = yoe + era * 400;
          doy = doe - (365 * yoe + yoe div 4 - yoe div 100);
          mp = (5 * doy + 2) div 153;
          d = doy - (153 * mp + 2) div 5 + 1;
          m = (if mp < 10 then mp + 3 else mp - 9)
      in (if m \<le> 2 then y + 1 else y, m, d))"

definition padLeft :: "nat \<Rightarrow> string \<Rightarrow> string" where
  "padLeft n s = replicate (n - length s) CHR ''0'' @ s"

definition isoYear :: "int \<Rightarrow> string" where
  "isoYear y =
     (if 0 \<le> y \<and> y \<le> 9999 then padLeft 4 (showInt y)
      else (if y < 0 then ''-'' else ''+'') @ padLeft 6 (showInt \<bar>y\<bar>))"

text \<open>\<^verbatim>\<open>date.toISOString().split('T')[0]\<close> for a valid time value.\<close>

definition isoDate :: "int \<Rightarrow> string" where
  "isoDate t =
     (case civilFromDays (t div 86400000) of
        (y, m, d) \<Rightarrow> isoYear y @ ''-'' @ padLeft 2 (showInt m) @ ''-'' @ padLeft 2 (showInt d))"

subsection \<open>Comparison keys\<close>

text \<open>
  \<^verbatim>\<open>createRowKeys\<close>. The operator \<^verbatim>\<open>a || b\<close> on strings is written as the conditional it is:
  \<open>b\<close> is taken when \<open>a\<close> is the empty string.
\<close>

definition createRowKeys :: "engine \<Rightarrow> ProcessedComplaint \<Rightarrow> string list" where
  "createRowKeys E row =
     (let address = normalizeForComparison E (getField (rawFields row) ''propertyAddress'');
          county = normalizeForComparison E
                     (JStr (if normalizedCounty row \<noteq> [] then normalizedCounty row
                            else normalizeCounty E (getField (rawFields row) ''county'')));
          lender = normalizeForComparison E
                     (JStr (if normalizedLender row \<noteq> [] then normalizedLender row
                            else normalizeLender E (orElse (getField (rawFields row) ''lender'')
                                                           (getField (rawFields row) ''plaintiff''))));
          dateStr = (case complaintDate row of None \<Rightarrow> [] | Some t \<Rightarrow> isoDate t);
          upbStr = (case upb row of None \<Rightarrow> [] | Some n \<Rightarrow> numToString n);
          exactKey = join ''|'' [address, county, lender, dateStr, upbStr];
          withoutUPB = join ''|'' [address, county, lender, dateStr];
          addressDate = join ''|'' [address, dateStr];
          fuzzyAddress = take 20 address;
          fuzzyKey = join ''|'' [fuzzyAddress, county, lender, dateStr]
      in [exactKey, withoutUPB, addressDate, fuzzyKey])"

subsection \<open>\<^verbatim>\<open>detectDuplicates\<close>\<close>

record DuplicateInfo =
  dupFlag :: bool
  duplicateOf :: "nat option"

text \<open>
  The loop over the keys of one row: the first key (in strategy order) that is registered
  under another index decides.
\<close>

fun findDuplicate :: "(string \<rightharpoonup> nat) \<Rightarrow> nat \<Rightarrow> string list \<Rightarrow> nat option" where
  "findDuplicate seenKeys index [] = None"
| "findDuplicate seenKeys index (key # keys) =
     (if key \<noteq> [] \<and> seenKeys key \<noteq> None
      then (let originalIndex = the (seenKeys key)
            in if originalIndex \<noteq> index then Some originalIndex
               else findDuplicate seenKeys index keys)
      else findDuplicate seenKeys index keys)"

text \<open>\<^verbatim>\<open>keys.forEach(key => { if (key && !seenKeys.has(key)) seenKeys.set(key, index) })\<close>\<close>

fun registerKeys :: "(string \<rightharpoonup> nat) \<Rightarrow> nat \<Rightarrow> string list \<Rightarrow> (string \<rightharpoonup> nat)" where
  "registerKeys seenKeys index [] = seenKeys"
| "registerKeys seenKeys index (key # keys) =
     registerKeys (if key \<noteq> [] \<and> seenKeys key = None then seenKeys(key \<mapsto> index) else seenKeys)
       index keys"

text \<open>
  One call of the \<^verbatim>\<open>forEach\<close> callback. The state is the pair of \<^verbatim>\<open>seenKeys\<close> and
  \<^verbatim>\<open>duplicateMap\<close>; the latter receives the keys \<open>0, 1, 2, \<dots>\<close> in this order and is held
  as the list of its values.
\<close>

definition detectStep ::
  "engine \<Rightarrow> (string \<rightharpoonup> nat) \<times> DuplicateInfo list \<Rightarrow> nat \<times> ProcessedComplaint
     \<Rightarrow> (string \<rightharpoonup> nat) \<times> DuplicateInfo list" where
  "detectStep E st ir =
     (case st of (seenKeys, duplicateMap) \<Rightarrow>
      case ir of (index, row) \<Rightarrow>
        if \<not> isValid row
        then (seenKeys, duplicateMap @ [\<lparr>dupFlag = False, duplicateOf = None\<rparr>])
        else (let keys = createRowKeys E row;
                  found = findDuplicate seenKeys index keys
              in (if found = None then registerKeys seenKeys index keys else seenKeys,
                  duplicateMap @ [\<lparr>dupFlag = (found \<noteq> None), duplicateOf = found\<rparr>])))"

definition detectLoop ::
  "engine \<Rightarrow> ProcessedComplaint list \<Rightarrow> (string \<rightharpoonup> nat) \<times> DuplicateInfo list" where
  "detectLoop E rows = foldl (detectStep E) (Map.empty, []) (enumerate 0 rows)"

definition detectDuplicates :: "engine \<Rightarrow> ProcessedComplaint list \<Rightarrow> DuplicateInfo list" where
  "detectDuplicates E rows = snd (detectLoop E rows)"

section \<open>JSON fields\<close>

subsection \<open>The texts \<^verbatim>\<open>JSON.parse\<close> accepts\<close>

text \<open>
  \<^verbatim>\<open>JSON.parse\<close> either returns a value or throws a \<^verbatim>\<open>SyntaxError\<close>. The validator only
  uses which of the two happens (and the message of the error), so the model is a
  recogniser of the JSON grammar of ECMA-404: a lexer, and a pushdown automaton over the
  tokens.
\<close>

datatype jtoken = TLBrace | TRBrace | TLBracket | TRBracket | TColon | TComma | TString | TScalar

definition isJsonWs :: "char \<Rightarrow> bool" where
  "isJsonWs c = (c \<in> set [CHR '' '', CHR 0x09, CHR 0x0A, CHR 0x0D])"

definition isHex :: "char \<Rightarrow> bool" where
  "isHex c = (c \<in> set ''0123456789abcdefABCDEF'')"

text \<open>A control character, below \<^verbatim>\<open>U+0020\<close>.\<close>

definition isControl :: "char \<Rightarrow> bool" where
  "isControl c = (\<not> digit5 c \<and> \<not> digit6 c \<and> \<not> digit7 c)"

text \<open>The text after the closing quote of a string whose opening quote has been read.\<close>

fun stringBody :: "string \<Rightarrow> string option" where
  "stringBody [] = None"
| "stringBody (c # cs) =
     (if c = CHR 0x22 then Some cs
      else if c = CHR 0x5C then
        (case cs of
           [] \<Rightarrow> None
         | e # es \<Rightarrow>
             if e \<in> set [CHR 0x22, CHR 0x5C, CHR ''/'', CHR ''b'', CHR ''f'', CHR ''n'', CHR ''r'', CHR ''t'']
             then stringBody es
             else if e = CHR ''u'' then
               (case es of
                  h1 # h2 # h3 # h4 # rest \<Rightarrow>
                    if isHex h1 \<and> isHex h2 \<and> isHex h3 \<and> isHex h4 then stringBody rest else None
                | _ \<Rightarrow> None)
             else None)
      else if isControl c then None
      else stringBody cs)"

text \<open>
  The text after a number \<^verbatim>\<open>-?(0|[1-9][0-9]*)(\.[0-9]+)?([eE][+-]?[0-9]+)?\<close> at the start
  of the text.
\<close>

definition digitsThen :: "string \<Rightarrow> string option" where
  "digitsThen s = (case s of [] \<Rightarrow> None | d # r \<Rightarrow> if isDigit d then Some (dropWhile isDigit r) else None)"

definition numberInt :: "string \<Rightarrow> string option" where
  "numberInt s =
     (case (case s of [] \<Rightarrow> [] | c # cs \<Rightarrow> if c = CHR ''-'' then cs else c # cs) of
        [] \<Rightarrow> None
      | d # r \<Rightarrow> if d = CHR ''0'' then Some r else digitsThen (d # r))"

definition numberFrac :: "string \<Rightarrow> string option" where
  "numberFrac s = (case s of [] \<Rightarrow> Some [] | c # cs \<Rightarrow> if c = CHR ''.'' then digitsThen cs else Some (c # cs))"

definition numberExp :: "string \<Rightarrow> string option" where
  "numberExp s =
     (case s of
        [] \<Rightarrow> Some []
      | c # cs \<Rightarrow>
          if c = CHR ''e'' \<or> c = CHR ''E'' then
            (case cs of
               [] \<Rightarrow> None
             | g # gs \<Rightarrow> if g = CHR ''+'' \<or> g = CHR ''-'' then digitsThen gs else digitsThen (g # gs))
          else Some (c # cs))"

definition numberRest :: "string \<Rightarrow> string option" where
  "numberRest s = Option.bind (Option.bind (numberInt s) numberFrac) numberExp"

lemma digitsThen_length: "digitsThen s = Some r \<Longrightarrow> length r < length s"
  by (auto simp: digitsThen_def less_Suc_eq_le length_dropWhile_le split: list.splits if_splits)

lemma numberInt_length: "numberInt s = Some r \<Longrightarrow> length r < length s"
  by (auto simp: numberInt_def split: list.splits if_splits dest!: digitsThen_length)

lemma numberFrac_length: "numberFrac s = Some r \<Longrightarrow> length r \<le> length s"
  by (auto simp: numberFrac_def split: list.splits if_splits dest!: digitsThen_length)

lemma numberExp_length: "numberExp s = Some r \<Longrightarrow> length r \<le> length s"
  by (auto simp: numberExp_def split: list.splits if_splits dest!: digitsThen_length)

lemma numberRest_length: "numberRest s = Some r \<Longrightarrow> length r < length s"
  by (auto simp: numberRest_def Option.bind_eq_Some_conv
      dest!: numberInt_length numberFrac_length numberExp_length)

lemma stringBody_length: "stringBody s = Some r \<Longrightarrow> length r < length s"
  by (induction s arbitrary: r rule: stringBody.induct)
    (fastforce split: if_splits list.splits)+

lemma stringBody_length_Suc: "stringBody cs = Some rest \<Longrightarrow> length rest < Suc (length cs)"
  by (drule stringBody_length) simp

lemma numberRest_length_Suc: "numberRest (c # cs) = Some rest \<Longrightarrow> length rest < Suc (length cs)"
  by (drule numberRest_length) simp

function jsonTokens :: "string \<Rightarrow> jtoken list option" where
  "jsonTokens [] = Some []"
| "jsonTokens (c # cs) =
     (if isJsonWs c then jsonTokens cs
      else if c = CHR ''{'' then map_option (Cons TLBrace) (jsonTokens cs)
      else if c = CHR ''}'' then map_option (Cons TRBrace) (jsonTokens cs)
      else if c = CHR ''['' then map_option (Cons TLBracket) (jsonTokens cs)
      else if c = CHR '']'' then map_option (Cons TRBracket) (jsonTokens cs)
      else if c = CHR '':'' then map_option (Cons TColon) (jsonTokens cs)
      else if c = CHR '','' then map_option (Cons TComma) (jsonTokens cs)
      else if c = CHR 0x22 then
        (case stringBody cs of
           None \<Rightarrow> None
         | Some rest \<Rightarrow> map_option (Cons TString) (jsonTokens rest))
      else if c = CHR ''-'' \<or> isDigit c then
        (case numberRest (c # cs) of
           None \<Rightarrow> None
         | Some rest \<Rightarrow> map_option (Cons TScalar) (jsonTokens rest))
      else if startsWith (c # cs) ''true'' then map_option (Cons TScalar) (jsonTokens (drop 3 cs))
      else if startsWith (c # cs) ''false'' then map_option (Cons TScalar) (jsonTokens (drop 4 cs))
      else if startsWith (c # cs) ''null'' then map_option (Cons TScalar) (jsonTokens (drop 3 cs))
      else None)"
  by pat_completeness auto
termination
  by (relation "measure length") (simp_all add: stringBody_length_Suc numberRest_length_Suc)

datatype jframe = InArray | InObject

datatype jmode = ExpectValue | ExpectValueOrEnd | ExpectKeyOrEnd | ExpectKey | ExpectColon | AfterValue

fun valueStart :: "jtoken \<Rightarrow> jframe list \<Rightarrow> (jmode \<times> jframe list) option" where
  "valueStart TString st = Some (AfterValue, st)"
| "valueStart TScalar st = Some (AfterValue, st)"
| "valueStart TLBrace st = Some (ExpectKeyOrEnd, InObject # st)"
| "valueStart TLBracket st = Some (ExpectValueOrEnd, InArray # st)"
| "valueStart _ st = None"

fun jsonStep :: "jtoken \<Rightarrow> jmode \<times> jframe list \<Rightarrow> (jmode \<times> jframe list) option" where
  "jsonStep t (ExpectValue, st) = valueStart t st"
| "jsonStep t (ExpectValueOrEnd, st) =
     (if t = TRBracket then Some (AfterValue, tl st) else valueStart t st)"
| "jsonStep t (ExpectKeyOrEnd, st) =
     (if t = TString then Some (ExpectColon, st)
      else if t = TRBrace then Some (AfterValue, tl st)
      else None)"
| "jsonStep t (ExpectKey, st) = (if t = TString then Some (ExpectColon, st) else None)"
| "jsonStep t (ExpectColon, st) = (if t = TColon then Some (ExpectValue, st) else None)"
| "jsonStep t (AfterValue, []) = None"
| "jsonStep t (AfterValue, InArray # st) =
     (if t = TComma then Some (ExpectValue, InArray # st)
      else if t = TRBracket then Some (AfterValue, st)
      else None)"
| "jsonStep t (AfterValue, InObject # st) =
     (if t = TComma then Some (ExpectKey, InObject # st)
      else if t = TRBrace then Some (AfterValue, st)
      else None)"

fun jsonRun :: "jtoken list \<Rightarrow> jmode \<times> jframe list \<Rightarrow> bool" where
  "jsonRun [] st = (st = (AfterValue, []))"
| "jsonRun (t # ts) st = (case jsonStep t st of None \<Rightarrow> False | Some st' \<Rightarrow> jsonRun ts st')"

text \<open>\<^verbatim>\<open>JSON.parse(text)\<close> returns, rather than throws.\<close>

definition jsonParses :: "string \<Rightarrow> bool" where
  "jsonParses text = (case jsonTokens text of None \<Rightarrow> False | Some ts \<Rightarrow> jsonRun ts (ExpectValue, []))"

subsection \<open>\<^verbatim>\<open>looksLikeJSON\<close>, \<^verbatim>\<open>attemptJSONFix\<close>, \<^verbatim>\<open>validateJSONField\<close>\<close>

definition looksLikeJSON :: "string \<Rightarrow> bool" where
  "looksLikeJSON str =
     (let trimmed = trim str
      in (startsWith trimmed ''{'' \<and> endsWith trimmed ''}'') \<or>
         (startsWith trimmed ''['' \<and> endsWith trimmed '']'') \<or>
         startsWith trimmed [CHR 0x22] \<or>
         testRe (seqs [Bol, Star CSpace, Cls (COneOf ''{['')]) trimmed)"

text \<open>\<^verbatim>\<open>(s.match(/c/g) || []).length\<close> for a character \<open>c\<close>.\<close>

definition countChar :: "char \<Rightarrow> string \<Rightarrow> nat" where
  "countChar c s = length (filter (\<lambda>x. x = c) s)"

text \<open>
  The source declares the result \<^verbatim>\<open>string | null\<close> and always returns the string.
\<close>

definition attemptJSONFix :: "string \<Rightarrow> string" where
  "attemptJSONFix jsonString =
     (let fixed0 = trim jsonString;
          openBraces = countChar CHR ''{'' fixed0;
          closeBraces = countChar CHR ''}'' fixed0;
          openBrackets = countChar CHR ''['' fixed0;
          closeBrackets = countChar CHR '']'' fixed0;
          fixed1 = (if openBraces > closeBraces
                    then fixed0 @ replicate (openBraces - closeBraces) CHR ''}'' else fixed0);
          fixed2 = (if openBrackets > closeBrackets
                    then fixed1 @ replicate (openBrackets - closeBrackets) CHR '']'' else fixed1)
      in (if \<not> startsWith fixed2 ''{'' \<and> \<not> startsWith fixed2 ''['' \<and> includesStr fixed2 '':''
          then ''{'' @ fixed2 @ ''}'' else fixed2))"

text \<open>
  The result of \<^verbatim>\<open>validateJSONField\<close>. Its \<^verbatim>\<open>parsed\<close> property is left out: no caller in
  the pipeline reads it.
\<close>

record JSONResult =
  jsonValid :: bool
  jsonError :: "string option"
  wasFixed :: bool

definition jsonOk :: JSONResult where
  "jsonOk = \<lparr>jsonValid = True, jsonError = None, wasFixed = False\<rparr>"

text \<open>\<^verbatim>\<open>errorMsg.match(/position (\d+)/)\<close>: the digits of the first match.\<close>

fun matchPosition :: "string \<Rightarrow> string option" where
  "matchPosition [] = None"
| "matchPosition (c # cs) =
     (if startsWith (c # cs) ''position '' \<and> takeWhile isDigit (drop 9 (c # cs)) \<noteq> []
      then Some (takeWhile isDigit (drop 9 (c # cs)))
      else matchPosition cs)"

text \<open>\<^verbatim>\<open>parseInt\<close> of a string of decimal digits.\<close>

definition digitValue :: "char \<Rightarrow> int" where
  "digitValue c = (case map_of (zip ''0123456789'' [0, 1, 2, 3, 4, 5, 6, 7, 8, 9]) c of
                     Some d \<Rightarrow> d | None \<Rightarrow> 0)"

definition digitsToInt :: "string \<Rightarrow> int" where
  "digitsToInt ds = foldl (\<lambda>n c. 10 * n + digitValue c) 0 ds"

text \<open>
  \<^verbatim>\<open>s.substring(start, end)\<close> for indices that are not negative: both are clamped to the
  length, and swapped when the first is the larger.
\<close>

definition substring :: "string \<Rightarrow> nat \<Rightarrow> nat \<Rightarrow> string" where
  "substring s a b =
     (let a' = min a (length s); b' = min b (length s)
      in take (max a' b' - min a' b') (drop (min a' b') s))"

definition errorContext :: "string \<Rightarrow> string \<Rightarrow> string" where
  "errorContext errorMsg trimmed =
     (if includesStr errorMsg ''position''
      then (case matchPosition errorMsg of
              None \<Rightarrow> []
            | Some digits \<Rightarrow>
                (let pos = digitsToInt digits;
                     start = max 0 (pos - 20);
                     end' = min (int (length trimmed)) (pos + 20)
                 in '' (near: '' @ [CHR 0x22] @ substring trimmed (nat start) (nat end')
                    @ [CHR 0x22] @ '')''))
      else [])"

definition validateJSONField :: "engine \<Rightarrow> jsval \<Rightarrow> string \<Rightarrow> JSONResult" where
  "validateJSONField E field fieldName =
     (case field of
        JStr s \<Rightarrow>
          if s = [] then jsonOk
          else (let trimmed = trim s
                in if \<not> looksLikeJSON trimmed \<and> length trimmed < 2 then jsonOk
                   else if jsonParses trimmed then jsonOk
                   else (let fixed = attemptJSONFix trimmed
                         in if fixed \<noteq> [] \<and> jsonParses fixed
                            then \<lparr>jsonValid = True,
                                  jsonError = Some (''JSON in '' @ fieldName @ '' was malformed but auto-fixed''),
                                  wasFixed = True\<rparr>
                            else (let errorMsg = jsonErrorMessage E trimmed
                                  in \<lparr>jsonValid = False,
                                      jsonError = Some (''Invalid JSON in '' @ fieldName @ '': '' @ errorMsg
                                                        @ errorContext errorMsg trimmed),
                                      wasFixed = False\<rparr>)))
      | _ \<Rightarrow> jsonOk)"

subsection \<open>\<^verbatim>\<open>scanForJSONFields\<close>\<close>

definition jsonNameHints :: "string list" where
  "jsonNameHints = [''json'', ''metadata'', ''data'', ''details'', ''info'', ''extra'', ''additional'']"

definition isJSONCandidate :: "string \<times> jsval \<Rightarrow> bool" where
  "isJSONCandidate kv =
     (case kv of (key, value) \<Rightarrow>
        (\<exists>hint \<in> set jsonNameHints. includesStr (toLowerCase key) hint) \<or>
        (case value of JStr s \<Rightarrow> looksLikeJSON s | _ \<Rightarrow> False))"

definition scanForJSONFields :: "(string \<times> jsval) list \<Rightarrow> (string \<times> jsval) list" where
  "scanForJSONFields row = filter isJSONCandidate row"

section \<open>Validation of a row\<close>

text \<open>\<^verbatim>\<open>typeof v === 'string' ? v.trim() : v\<close>\<close>

definition trimIfString :: "jsval \<Rightarrow> jsval" where
  "trimIfString v = (case v of JStr s \<Rightarrow> JStr (trim s) | _ \<Rightarrow> v)"

text \<open>\<^verbatim>\<open>!v || v === ''\<close>\<close>

definition missing :: "jsval \<Rightarrow> bool" where
  "missing v = (\<not> truthy v \<or> v = JStr [])"

text \<open>\<^verbatim>\<open>v.length < 5\<close> for a truthy value: only strings and arrays have a length.\<close>

definition lengthBelow :: "jsval \<Rightarrow> nat \<Rightarrow> bool" where
  "lengthBelow v n = (case v of JStr s \<Rightarrow> length s < n | JArray xs \<Rightarrow> length xs < n | _ \<Rightarrow> False)"

text \<open>\<^verbatim>\<open>a ?? b\<close>\<close>

definition coalesce :: "jsval \<Rightarrow> jsval \<Rightarrow> jsval" where
  "coalesce a b = (if a = JUndefined \<or> a = JNull then b else a)"

text \<open>
  Each check of \<^verbatim>\<open>validateRow\<close> is a function from the row to the errors and the
  warnings it pushes, in the order of the pushes.
\<close>

record Issues =
  errs :: "string list"
  warns :: "string list"

definition noIssues :: Issues where
  "noIssues = \<lparr>errs = [], warns = []\<rparr>"

definition anError :: "string \<Rightarrow> Issues" where
  "anError e = \<lparr>errs = [e], warns = []\<rparr>"

definition aWarning :: "string \<Rightarrow> Issues" where
  "aWarning w = \<lparr>errs = [], warns = [w]\<rparr>"

definition addIssues :: "Issues \<Rightarrow> Issues \<Rightarrow> Issues" where
  "addIssues a b = \<lparr>errs = errs a @ errs b, warns = warns a @ warns b\<rparr>"

definition checkAddress :: "(string \<times> jsval) list \<Rightarrow> Issues" where
  "checkAddress row =
     (let propertyAddress = trimIfString (getField row ''propertyAddress'')
      in if missing propertyAddress then anError ''Missing or empty property address''
         else if lengthBelow propertyAddress 5 then aWarning ''Property address seems too short''
         else noIssues)"

definition checkCounty :: "(string \<times> jsval) list \<Rightarrow> Issues" where
  "checkCounty row =
     (let county = trimIfString (getField row ''county'')
      in if missing county then anError ''Missing or empty county'' else noIssues)"

definition checkLender :: "(string \<times> jsval) list \<Rightarrow> Issues" where
  "checkLender row =
     (let lender = trimIfString (getField row ''lender'');
          plaintiff = trimIfString (getField row ''plaintiff'');
          lenderValue = coalesce lender plaintiff
      in addIssues
           (if missing lender \<and> missing plaintiff then anError ''Missing or empty lender/plaintiff''
            else noIssues)
           (if isDate lenderValue then anError ''Invalid lender/plaintiff value: date''
            else if lenderValue \<noteq> JUndefined \<and> lenderValue \<noteq> JNull \<and> typeof lenderValue \<noteq> ''string''
            then anError (''Invalid lender/plaintiff value type: '' @ typeof lenderValue)
            else noIssues))"

text \<open>
  \<^verbatim>\<open>parseFloat\<close> of a text made of the characters \<^verbatim>\<open>0-9\<close>, \<^verbatim>\<open>.\<close> and \<^verbatim>\<open>-\<close>: the longest
  prefix that is a decimal literal, \<^verbatim>\<open>NaN\<close> when it has no digit.
\<close>

definition parseFloat :: "string \<Rightarrow> jsnum" where
  "parseFloat s =
     (let negative = startsWith s ''-'';
          body = (if negative then drop 1 s else s);
          intDigits = takeWhile isDigit body;
          afterInt = dropWhile isDigit body;
          fracPart = (if startsWith afterInt ''.'' then takeWhile isDigit (drop 1 afterInt) else [])
      in if intDigits = [] \<and> fracPart = [] then NaN
         else Fin ((if negative then - 1 else 1) *
                   (of_int (digitsToInt intDigits)
                    + of_int (digitsToInt fracPart) / of_int (10 ^ length fracPart))))"

text \<open>The magnitude warnings shared by the string and the number branch.\<close>

definition upbWarnings :: "rat \<Rightarrow> Issues" where
  "upbWarnings r =
     (if r < 0 then aWarning ''UPB is negative''
      else if r = 0 then aWarning ''UPB is zero''
      else if r > 1000000000 then aWarning ''UPB seems unusually high''
      else noIssues)"

definition checkUPB :: "(string \<times> jsval) list \<Rightarrow> Issues \<times> jsnum option" where
  "checkUPB row =
     (case getField row ''upb'' of
        JUndefined \<Rightarrow> (aWarning ''UPB is missing'', None)
      | JNull \<Rightarrow> (aWarning ''UPB is missing'', None)
      | JStr s \<Rightarrow>
          (let cleaned = filter (\<lambda>c. c \<in> set ''0123456789.-'') (trim s)
           in if cleaned = [] then (anError ''UPB is empty or contains no numbers'', None)
              else (case parseFloat cleaned of
                      NaN \<Rightarrow> (anError (''Invalid UPB format: '' @ [CHR 0x22] @ s @ [CHR 0x22]), None)
                    | Fin r \<Rightarrow> (upbWarnings r, Some (Fin r))))
      | JNum n \<Rightarrow> ((case n of NaN \<Rightarrow> noIssues | Fin r \<Rightarrow> upbWarnings r), Some n)
      | v \<Rightarrow> (anError (''Invalid UPB type: '' @ typeof v), None))"

text \<open>The warnings on a date that parsed: in the future, or more than ten years old.\<close>

definition dateWarnings :: "engine \<Rightarrow> int \<Rightarrow> Issues" where
  "dateWarnings E t =
     addIssues
       (if t > now E then aWarning ''Complaint date is in the future'' else noIssues)
       (if t < tenYearsAgo E then aWarning ''Complaint date is more than 10 years old''
        else noIssues)"

definition checkDate :: "engine \<Rightarrow> (string \<times> jsval) list \<Rightarrow> Issues \<times> int option" where
  "checkDate E row =
     (let v = getField row ''complaintDate''
      in if \<not> truthy v then (aWarning ''Complaint date is missing'', None)
         else (case v of
                 JDate d \<Rightarrow>
                   (case d of
                      None \<Rightarrow> (anError ''Invalid Date object'', None)
                    | Some t \<Rightarrow> (dateWarnings E t, Some t))
               | JStr s \<Rightarrow>
                   (let trimmed = trim s
                    in if trimmed = [] then (anError ''Complaint date is empty string'', None)
                       else (case dateParse E trimmed of
                               None \<Rightarrow> (anError (''Invalid date format: '' @ [CHR 0x22] @ trimmed
                                                    @ [CHR 0x22]), None)
                             | Some t \<Rightarrow> (dateWarnings E t, Some t)))
               | _ \<Rightarrow> (anError (''Invalid date type: '' @ typeof v), None)))"

text \<open>The callback of \<^verbatim>\<open>jsonFields.forEach\<close>.\<close>

definition jsonFieldIssues :: "engine \<Rightarrow> string \<times> jsval \<Rightarrow> Issues" where
  "jsonFieldIssues E kv =
     (case kv of (fieldName, value) \<Rightarrow>
        (let result = validateJSONField E value fieldName
         in case jsonError result of
              None \<Rightarrow> noIssues
            | Some e \<Rightarrow>
                if \<not> jsonValid result \<and> e \<noteq> [] then anError e
                else if wasFixed result \<and> e \<noteq> [] then aWarning e
                else noIssues))"

definition checkJSON :: "engine \<Rightarrow> (string \<times> jsval) list \<Rightarrow> Issues" where
  "checkJSON E row = foldl addIssues noIssues (map (jsonFieldIssues E) (scanForJSONFields row))"

text \<open>Everything \<^verbatim>\<open>validateRow\<close> has pushed when it reaches its last statement.\<close>

definition rowIssues :: "engine \<Rightarrow> (string \<times> jsval) list \<Rightarrow> Issues" where
  "rowIssues E row =
     foldl addIssues noIssues
       [checkAddress row, checkCounty row, checkLender row, fst (checkUPB row),
        fst (checkDate E row), checkJSON E row]"

text \<open>
  \<^verbatim>\<open>validateRow\<close>. On a row that is \<^verbatim>\<open>null\<close> or \<^verbatim>\<open>undefined\<close> the first property read
  throws; the result is then the message of the error (\<open>Inl\<close>).
\<close>

definition validateFields :: "engine \<Rightarrow> (string \<times> jsval) list \<Rightarrow> ProcessedComplaint" where
  "validateFields E row =
     (let issues = rowIssues E row;
          allIssues = (if length (errs issues) > 0 then errs issues else warns issues)
      in \<lparr>rawFields = row,
          upb = snd (checkUPB row),
          complaintDate = snd (checkDate E row),
          isValid = (length (errs issues) = 0),
          errors = (if length allIssues > 0 then Some allIssues else None),
          normalizedCounty = [],
          normalizedLender = [],
          isDuplicate = getField row ''isDuplicate''\<rparr>)"

fun validateRow :: "engine \<Rightarrow> ComplaintRow \<Rightarrow> nat \<Rightarrow> string + ProcessedComplaint" where
  "validateRow E RowNull index = Inl (typeErrorMessage E ''null'')"
| "validateRow E RowUndefined index = Inl (typeErrorMessage E ''undefined'')"
| "validateRow E (Row row) index = Inr (validateFields E row)"

section \<open>The quality pipeline\<close>

text \<open>
  An entry of \<^verbatim>\<open>issues\<close>. Its \<^verbatim>\<open>errors\<close> is an array object, and the entry that the
  \<^verbatim>\<open>try\<close> block of the first pass pushes holds the array of the processed record itself
  (\<^verbatim>\<open>errors: validated.errors || []\<close>) when the record has one. \<open>issueErrorsShared\<close> says
  that the two are one object: a write to the array of such an entry is a write to
  \<^verbatim>\<open>processed[rowIndex].errors\<close> too.
\<close>

record DataQualityIssue =
  rowIndex :: nat
  issueRow :: ComplaintRow
  issueErrors :: "string list"
  issueErrorsShared :: bool
  issueIsDuplicate :: bool
  issueDuplicateOf :: "nat option"

record Summary =
  totalRows :: int
  validRows :: int
  invalidRows :: int
  duplicateRows :: int
  rowsWithJSONErrors :: int
  rowsWithOtherErrors :: int

record PipelineResult =
  processed :: "ProcessedComplaint list"
  issues :: "DataQualityIssue list"
  summary :: Summary

subsection \<open>First pass: validation\<close>

text \<open>The local variables the first \<^verbatim>\<open>forEach\<close> writes.\<close>

record FirstPass =
  fpProcessed :: "ProcessedComplaint list"
  fpIssues :: "DataQualityIssue list"
  fpJSONErrors :: int
  fpOtherErrors :: int

text \<open>\<^verbatim>\<open>validated.errors?.some(err => err.toLowerCase().includes('json')) || false\<close>\<close>

definition hasJSONError :: "ProcessedComplaint \<Rightarrow> bool" where
  "hasJSONError validated =
     (case errors validated of
        None \<Rightarrow> False
      | Some es \<Rightarrow> \<exists>err \<in> set es. includesStr (toLowerCase err) ''json'')"

text \<open>\<^verbatim>\<open>!validated.isValid || (validated.errors && validated.errors.length > 0)\<close>\<close>

definition hasIssue :: "ProcessedComplaint \<Rightarrow> bool" where
  "hasIssue validated =
     (\<not> isValid validated \<or> (case errors validated of None \<Rightarrow> False | Some es \<Rightarrow> length es > 0))"

text \<open>
  The record the \<^verbatim>\<open>catch\<close> block pushes:
  \<^verbatim>\<open>{...row, isValid: false, errors: [...], normalizedCounty: '', normalizedLender: ''}\<close>.
  The rows whose validation throws have no property to spread, so \<^verbatim>\<open>upb\<close> and
  \<^verbatim>\<open>complaintDate\<close> are \<^verbatim>\<open>undefined\<close> in it.
\<close>

definition failedRecord :: "ComplaintRow \<Rightarrow> string \<Rightarrow> ProcessedComplaint" where
  "failedRecord row errorMsg =
     \<lparr>rawFields = spread row,
      upb = None,
      complaintDate = None,
      isValid = False,
      errors = Some [''Validation failed: '' @ errorMsg],
      normalizedCounty = [],
      normalizedLender = [],
      isDuplicate = getField (spread row) ''isDuplicate''\<rparr>"

text \<open>The body of the first \<^verbatim>\<open>forEach\<close>, with its \<^verbatim>\<open>try\<close> and \<^verbatim>\<open>catch\<close>.\<close>

definition firstPassStep :: "engine \<Rightarrow> FirstPass \<Rightarrow> nat \<times> ComplaintRow \<Rightarrow> FirstPass" where
  "firstPassStep E st ir =
     (case ir of (index, row) \<Rightarrow>
        (case validateRow E row index of
          Inr validated \<Rightarrow>
            \<lparr>fpProcessed = fpProcessed st @ [validated],
             fpIssues =
               (if hasIssue validated
                then fpIssues st @
                       [\<lparr>rowIndex = index, issueRow = row,
                         issueErrors = (case errors validated of None \<Rightarrow> [] | Some es \<Rightarrow> es),
                         issueErrorsShared = (errors validated \<noteq> None),
                         issueIsDuplicate = False, issueDuplicateOf = None\<rparr>]
                else fpIssues st),
             fpJSONErrors = (if hasJSONError validated then fpJSONErrors st + 1 else fpJSONErrors st),
             fpOtherErrors =
               (if hasIssue validated \<and> \<not> hasJSONError validated then fpOtherErrors st + 1
                else fpOtherErrors st)\<rparr>
        | Inl errorMsg \<Rightarrow>
            \<lparr>fpProcessed = fpProcessed st @ [failedRecord row errorMsg],
             fpIssues = fpIssues st @
                       [\<lparr>rowIndex = index, issueRow = row,
                         issueErrors = [''Validation exception: '' @ errorMsg],
                         issueErrorsShared = False,
                         issueIsDuplicate = False, issueDuplicateOf = None\<rparr>],
             fpJSONErrors = fpJSONErrors st,
             fpOtherErrors = fpOtherErrors st + 1\<rparr>))"

definition firstPass :: "engine \<Rightarrow> ComplaintRow list \<Rightarrow> FirstPass" where
  "firstPass E rows =
     foldl (firstPassStep E)
       \<lparr>fpProcessed = [], fpIssues = [], fpJSONErrors = 0, fpOtherErrors = 0\<rparr>
       (enumerate 0 rows)"

subsection \<open>Normalisation pass\<close>

definition normalizeRecord :: "engine \<Rightarrow> ProcessedComplaint \<Rightarrow> ProcessedComplaint" where
  "normalizeRecord E row =
     row\<lparr>normalizedCounty := normalizeCounty E (getField (rawFields row) ''county''),
         normalizedLender := normalizeLender E (orElse (getField (rawFields row) ''lender'')
                                                        (getField (rawFields row) ''plaintiff''))\<rparr>"

subsection \<open>Second pass: duplicates\<close>

definition duplicateMessage :: "nat option \<Rightarrow> string" where
  "duplicateMessage d =
     ''Duplicate row (matches row '' @ showNat ((case d of None \<Rightarrow> 0 | Some i \<Rightarrow> i) + 1) @ '')''"

text \<open>
  \<^verbatim>\<open>if (!errors.includes('Duplicate row')) errors.unshift(`Duplicate row (matches row ...)`)\<close>:
  the array after the statement.
\<close>

definition unshiftDuplicate :: "nat option \<Rightarrow> string list \<Rightarrow> string list" where
  "unshiftDuplicate d es = (if ''Duplicate row'' \<notin> set es then duplicateMessage d # es else es)"

text \<open>\<^verbatim>\<open>issues.find(issue => issue.rowIndex === index)\<close>\<close>

definition findIssue :: "nat \<Rightarrow> DataQualityIssue list \<Rightarrow> DataQualityIssue option" where
  "findIssue index issueList = find (\<lambda>issue. rowIndex issue = index) issueList"

text \<open>The writes to the issue found: the first issue of that row is updated in place.\<close>

definition markIssue :: "nat option \<Rightarrow> DataQualityIssue \<Rightarrow> DataQualityIssue" where
  "markIssue d issue =
     issue\<lparr>issueIsDuplicate := True,
           issueDuplicateOf := d,
           issueErrors := unshiftDuplicate d (issueErrors issue)\<rparr>"

fun updateFirstIssue :: "nat \<Rightarrow> nat option \<Rightarrow> DataQualityIssue list \<Rightarrow> DataQualityIssue list option" where
  "updateFirstIssue index d [] = None"
| "updateFirstIssue index d (issue # rest) =
     (if rowIndex issue = index then Some (markIssue d issue # rest)
      else map_option (Cons issue) (updateFirstIssue index d rest))"

text \<open>
  The processed record of a duplicate after the callback: \<^verbatim>\<open>isDuplicate\<close> is set, and when
  the issue found for the row shares its array with the record, the record reads the array
  with the message in front.
\<close>

definition markRecord ::
  "nat option \<Rightarrow> DataQualityIssue option \<Rightarrow> ProcessedComplaint \<Rightarrow> ProcessedComplaint" where
  "markRecord d existingIssue p =
     p\<lparr>isDuplicate := JBool True,
       errors := (case existingIssue of
                    None \<Rightarrow> errors p
                  | Some issue \<Rightarrow>
                      if issueErrorsShared issue then Some (unshiftDuplicate d (issueErrors issue))
                      else errors p)\<rparr>"

record SecondPass =
  spProcessed :: "ProcessedComplaint list"
  spIssues :: "DataQualityIssue list"
  spDuplicateCount :: int

text \<open>The callback of \<^verbatim>\<open>duplicateMap.forEach\<close>; \<open>rows\<close> is the input of the pipeline.\<close>

definition secondPassStep ::
  "ComplaintRow list \<Rightarrow> SecondPass \<Rightarrow> nat \<times> DuplicateInfo \<Rightarrow> SecondPass" where
  "secondPassStep rows st ii =
     (case ii of (index, duplicateInfo) \<Rightarrow>
        if dupFlag duplicateInfo
        then \<lparr>spProcessed =
                (spProcessed st)
                  [index := markRecord (duplicateOf duplicateInfo) (findIssue index (spIssues st))
                              (spProcessed st ! index)],
              spIssues =
                (case updateFirstIssue index (duplicateOf duplicateInfo) (spIssues st) of
                   Some updated \<Rightarrow> updated
                 | None \<Rightarrow>
                     spIssues st @
                       [\<lparr>rowIndex = index, issueRow = rows ! index,
                         issueErrors = [duplicateMessage (duplicateOf duplicateInfo)],
                         issueErrorsShared = False,
                         issueIsDuplicate = True,
                         issueDuplicateOf = duplicateOf duplicateInfo\<rparr>]),
              spDuplicateCount = spDuplicateCount st + 1\<rparr>
        else st)"

subsection \<open>\<^verbatim>\<open>processRowsWithQualityChecks\<close>\<close>

text \<open>\<^verbatim>\<open>p.isValid && !p.isDuplicate\<close>\<close>

definition countsAsValid :: "ProcessedComplaint \<Rightarrow> bool" where
  "countsAsValid p = (isValid p \<and> \<not> truthy (isDuplicate p))"

definition processRowsWithQualityChecks :: "engine \<Rightarrow> ComplaintRow list \<Rightarrow> PipelineResult" where
  "processRowsWithQualityChecks E rows =
     (let fp = firstPass E rows;
          normalized = map (normalizeRecord E) (fpProcessed fp);
          duplicateMap = detectDuplicates E normalized;
          sp = foldl (secondPassStep rows)
                 \<lparr>spProcessed = normalized, spIssues = fpIssues fp, spDuplicateCount = 0\<rparr>
                 (enumerate 0 duplicateMap);
          validCount = int (length (filter countsAsValid (spProcessed sp)));
          invalidCount = int (length (spProcessed sp)) - validCount
      in \<lparr>processed = spProcessed sp,
          issues = spIssues sp,
          summary =
            \<lparr>totalRows = int (length rows),
             validRows = validCount,
             invalidRows = invalidCount,
             duplicateRows = spDuplicateCount sp,
             rowsWithJSONErrors = fpJSONErrors fp,
             rowsWithOtherErrors = fpOtherErrors fp\<rparr>\<rparr>)"

section \<open>The four-week roll-up\<close>

record FourWeekRollUp =
  county :: string
  totalComplaints :: int
  totalUPB :: rat
  totalMeetsCriteria :: int
  totalUPBMeetsCriteria :: rat













section \<open>An example engine and example rows\<close>

text \<open>
  A concrete engine, for running the model: the clock stands at 2025-11-02T00:00:00Z, the
  \<^verbatim>\<open>Date\<close> parser knows one date, days have 24 hours, and strings are compared character
  by character.
\<close>

fun compareStrings :: "string \<Rightarrow> string \<Rightarrow> int" where
  "compareStrings [] [] = 0"
| "compareStrings [] (y # ys) = - 1"
| "compareStrings (x # xs) [] = 1"
| "compareStrings (x # xs) (y # ys) =
     (if x = y then compareStrings xs ys
      else if (of_char x :: nat) < of_char y then - 1 else 1)"

definition exampleEngine :: engine where
  "exampleEngine =
     \<lparr>now = 1762041600000,
      tenYearsAgo = 1446422400000,
      dateParse = (\<lambda>s. if s = ''2025-10-20'' then Some 1760918400000 else None),
      dateToString = (\<lambda>t. ''Invalid Date''),
      jsonErrorMessage = (\<lambda>s. ''Unexpected end of JSON input''),
      typeErrorMessage = (\<lambda>s. ''Cannot read properties of '' @ s),
      localeCompare = compareStrings,
      subDays = (\<lambda>t n. t - int n * 86400000)\<rparr>"

text \<open>A clean row, and a row whose \<^verbatim>\<open>metadata\<close> is the unterminated JSON text of the tests.\<close>

definition cleanRow :: ComplaintRow where
  "cleanRow =
     Row [(''propertyAddress'', JStr ''12 Oak St''), (''county'', JStr ''Kings''),
          (''lender'', JStr ''MNO Bank''), (''upb'', JNum (Fin 195000)),
          (''meetsCriteria'', JStr ''Meets criteria''), (''complaintDate'', JStr ''2025-10-20'')]"

definition brokenJSONText :: string where
  "brokenJSONText = ''{'' @ [CHR 0x22] @ ''incomplete'' @ [CHR 0x22] @ '': '' @ [CHR 0x22] @ ''json''"

definition brokenJSONRow :: ComplaintRow where
  "brokenJSONRow =
     Row [(''propertyAddress'', JStr ''45 Elm Ave''), (''county'', JStr ''Kings''),
          (''lender'', JStr ''XYZ Bank''), (''metadata'', JStr brokenJSONText)]"

section \<open>Properties of the pipeline\<close>

subsection \<open>What the first pass computes\<close>

text \<open>
  The record the first pass appends for a row: the validated record, or the record of the
  \<^verbatim>\<open>catch\<close> block when validation throws.
\<close>

definition validationOutcome :: "engine \<Rightarrow> nat \<times> ComplaintRow \<Rightarrow> ProcessedComplaint" where
  "validationOutcome E ir =
     (case ir of (index, row) \<Rightarrow>
        (case validateRow E row index of
           Inr validated \<Rightarrow> validated
         | Inl errorMsg \<Rightarrow> failedRecord row errorMsg))"

text \<open>
  The rows that add one to \<^verbatim>\<open>rowsWithJSONErrors\<close>, and those that add one to
  \<^verbatim>\<open>rowsWithOtherErrors\<close>.
\<close>

definition countedAsJSON :: "engine \<Rightarrow> nat \<times> ComplaintRow \<Rightarrow> bool" where
  "countedAsJSON E ir =
     (case ir of (index, row) \<Rightarrow>
        (case validateRow E row index of
           Inr validated \<Rightarrow> hasJSONError validated
         | Inl errorMsg \<Rightarrow> False))"

definition countedAsOther :: "engine \<Rightarrow> nat \<times> ComplaintRow \<Rightarrow> bool" where
  "countedAsOther E ir =
     (case ir of (index, row) \<Rightarrow>
        (case validateRow E row index of
           Inr validated \<Rightarrow> hasIssue validated \<and> \<not> hasJSONError validated
         | Inl errorMsg \<Rightarrow> True))"

lemma firstPassStep_processed:
  "fpProcessed (firstPassStep E st ir) = fpProcessed st @ [validationOutcome E ir]"
  by (simp add: firstPassStep_def validationOutcome_def split: prod.splits sum.splits)

lemma firstPassStep_json:
  "fpJSONErrors (firstPassStep E st ir) = fpJSONErrors st + (if countedAsJSON E ir then 1 else 0)"
  by (simp add: firstPassStep_def countedAsJSON_def split: prod.splits sum.splits)

lemma firstPassStep_other:
  "fpOtherErrors (firstPassStep E st ir) = fpOtherErrors st + (if countedAsOther E ir then 1 else 0)"
  by (simp add: firstPassStep_def countedAsOther_def split: prod.splits sum.splits)

lemma foldl_firstPass_processed:
  "fpProcessed (foldl (firstPassStep E) st xs) = fpProcessed st @ map (validationOutcome E) xs"
  by (induction xs arbitrary: st) (simp_all add: firstPassStep_processed)

lemma foldl_firstPass_json:
  "fpJSONErrors (foldl (firstPassStep E) st xs)
     = fpJSONErrors st + int (length (filter (countedAsJSON E) xs))"
  by (induction xs arbitrary: st) (simp_all add: firstPassStep_json)

lemma foldl_firstPass_other:
  "fpOtherErrors (foldl (firstPassStep E) st xs)
     = fpOtherErrors st + int (length (filter (countedAsOther E) xs))"
  by (induction xs arbitrary: st) (simp_all add: firstPassStep_other)

lemma firstPass_processed:
  "fpProcessed (firstPass E rows) = map (validationOutcome E) (enumerate 0 rows)"
  by (simp add: firstPass_def foldl_firstPass_processed)

lemma firstPass_json:
  "fpJSONErrors (firstPass E rows) = int (length (filter (countedAsJSON E) (enumerate 0 rows)))"
  by (simp add: firstPass_def foldl_firstPass_json)

lemma firstPass_other:
  "fpOtherErrors (firstPass E rows) = int (length (filter (countedAsOther E) (enumerate 0 rows)))"
  by (simp add: firstPass_def foldl_firstPass_other)

subsection \<open>What the second pass changes\<close>

lemma secondPassStep_length:
  "length (spProcessed (secondPassStep rows st ii)) = length (spProcessed st)"
  by (simp add: secondPassStep_def split: prod.splits)

lemma foldl_secondPass_length:
  "length (spProcessed (foldl (secondPassStep rows) st xs)) = length (spProcessed st)"
  by (induction xs arbitrary: st) (simp_all add: secondPassStep_length)

text \<open>
  A property of records that the writes of the second pass (to \<^verbatim>\<open>isDuplicate\<close>, and to the
  array of \<^verbatim>\<open>errors\<close>) leave alone.
\<close>

definition untouchedBySecondPass :: "(ProcessedComplaint \<Rightarrow> 'a) \<Rightarrow> bool" where
  "untouchedBySecondPass f = (\<forall>p b e. f (p\<lparr>isDuplicate := b, errors := e\<rparr>) = f p)"

lemma map_update_untouched:
  "untouchedBySecondPass f \<Longrightarrow> map f (ps[i := markRecord d x (ps ! i)]) = map f ps"
proof (cases "i < length ps")
  case True
  assume "untouchedBySecondPass f"
  then have "f (markRecord d x (ps ! i)) = f (ps ! i)"
    by (simp add: untouchedBySecondPass_def markRecord_def)
  with True show ?thesis
    by (simp add: map_update list_update_same_conv)
next
  case False
  then have "length ps \<le> i" by simp
  then show ?thesis by (simp add: list_update_beyond)
qed

lemma secondPassStep_untouched:
  "untouchedBySecondPass f \<Longrightarrow>
   map f (spProcessed (secondPassStep rows st ii)) = map f (spProcessed st)"
  by (simp add: secondPassStep_def map_update_untouched split: prod.splits)

lemma foldl_secondPass_untouched:
  "untouchedBySecondPass f \<Longrightarrow>
   map f (spProcessed (foldl (secondPassStep rows) st xs)) = map f (spProcessed st)"
  by (induction xs arbitrary: st) (simp_all add: secondPassStep_untouched)

lemma processed_length:
  "length (processed (processRowsWithQualityChecks E rows)) = length rows"
  by (simp add: processRowsWithQualityChecks_def Let_def foldl_secondPass_length firstPass_processed)

lemma processed_untouched:
  assumes "untouchedBySecondPass f"
  shows "map f (processed (processRowsWithQualityChecks E rows))
           = map (\<lambda>ir. f (normalizeRecord E (validationOutcome E ir))) (enumerate 0 rows)"
  using assms
  by (simp add: processRowsWithQualityChecks_def Let_def foldl_secondPass_untouched
      firstPass_processed comp_def)

lemma processed_nth_untouched:
  assumes "untouchedBySecondPass f" and "i < length rows"
  shows "f (processed (processRowsWithQualityChecks E rows) ! i)
           = f (normalizeRecord E (validationOutcome E (i, rows ! i)))"
proof -
  let ?ps = "processed (processRowsWithQualityChecks E rows)"
  have "map f ?ps ! i = map (\<lambda>ir. f (normalizeRecord E (validationOutcome E ir))) (enumerate 0 rows) ! i"
    using processed_untouched [OF assms(1)] by simp
  with assms(2) processed_length [of E rows] show ?thesis
    by (simp add: nth_enumerate_eq)
qed

subsection \<open>The summary adds up\<close>

text \<open>
  Claim C1. For every list of raw rows, the summary of \<^verbatim>\<open>processRowsWithQualityChecks\<close>
  satisfies \<^verbatim>\<open>validRows + invalidRows = totalRows\<close>: \<^verbatim>\<open>totalRows\<close> is the length of the
  input, one processed record is produced per input row (also for a row whose validation
  throws), \<^verbatim>\<open>validRows\<close> counts the processed records that are valid and not flagged as
  duplicates, and \<^verbatim>\<open>invalidRows\<close> counts all the others.
\<close>

theorem summary_rows_add_up:
  "let s = summary (processRowsWithQualityChecks E rows);
       ps = processed (processRowsWithQualityChecks E rows)
   in validRows s + invalidRows s = totalRows s \<and>
      totalRows s = int (length rows) \<and>
      length ps = length rows \<and>
      validRows s = int (length (filter (\<lambda>p. isValid p \<and> \<not> truthy (isDuplicate p)) ps)) \<and>
      invalidRows s = int (length (filter (\<lambda>p. \<not> (isValid p \<and> \<not> truthy (isDuplicate p))) ps))"
proof -
  let ?r = "processRowsWithQualityChecks E rows"
  let ?P = "\<lambda>p. isValid p \<and> \<not> truthy (isDuplicate p)"
  have len: "length (processed ?r) = length rows"
    by (rule processed_length)
  have total: "totalRows (summary ?r) = int (length rows)"
    by (simp add: processRowsWithQualityChecks_def Let_def)
  have valid: "validRows (summary ?r) = int (length (filter ?P (processed ?r)))"
    by (simp add: processRowsWithQualityChecks_def Let_def countsAsValid_def[abs_def])
  have invalid: "invalidRows (summary ?r) = int (length (processed ?r)) - validRows (summary ?r)"
    by (simp add: processRowsWithQualityChecks_def Let_def)
  have split: "length (filter ?P (processed ?r)) + length (filter (\<lambda>p. \<not> ?P p) (processed ?r))
                 = length (processed ?r)"
    by (rule sum_length_filter_compl)
  have rest: "invalidRows (summary ?r) = int (length (filter (\<lambda>p. \<not> ?P p) (processed ?r)))"
    using invalid valid split by linarith
  show ?thesis
    unfolding Let_def using len total valid invalid rest by simp
qed

theorem summary_rows_add_up_witness:
  "validRows (summary (processRowsWithQualityChecks exampleEngine [cleanRow, RowNull, cleanRow]))
     + invalidRows (summary (processRowsWithQualityChecks exampleEngine [cleanRow, RowNull, cleanRow]))
   = 3"
  using summary_rows_add_up [of exampleEngine "[cleanRow, RowNull, cleanRow]"]
  by (simp add: Let_def)

subsection \<open>The two error counters never count the same row\<close>

lemma disjoint_filters_length:
  "(\<And>x. \<not> (P x \<and> Q x)) \<Longrightarrow> length (filter P xs) + length (filter Q xs) \<le> length xs"
  by (induction xs) auto

text \<open>
  Claim C9. \<^verbatim>\<open>rowsWithJSONErrors\<close> is the number of rows whose validation returns a record
  with a reported issue that mentions \<^verbatim>\<open>json\<close> (case-insensitively);
  \<^verbatim>\<open>rowsWithOtherErrors\<close> is the number of rows whose validation throws, or returns a
  record that has an issue (it is invalid, or its issue list is not empty) none of which
  mentions \<^verbatim>\<open>json\<close>. No row is of both kinds, so no row is counted twice, and the two
  counters together never exceed the number of rows.
\<close>

theorem error_counters_are_exclusive:
  "let s = summary (processRowsWithQualityChecks E rows)
   in rowsWithJSONErrors s = int (length (filter (countedAsJSON E) (enumerate 0 rows))) \<and>
      rowsWithOtherErrors s = int (length (filter (countedAsOther E) (enumerate 0 rows))) \<and>
      (\<forall>i row. \<not> (countedAsJSON E (i, row) \<and> countedAsOther E (i, row))) \<and>
      (\<forall>i row. countedAsJSON E (i, row) =
         (\<exists>validated es. validateRow E row i = Inr validated \<and> errors validated = Some es \<and>
            (\<exists>e \<in> set es. includesStr (toLowerCase e) ''json''))) \<and>
      (\<forall>i row. countedAsOther E (i, row) =
         ((\<exists>errorMsg. validateRow E row i = Inl errorMsg) \<or>
          (\<exists>validated. validateRow E row i = Inr validated \<and>
             (\<not> isValid validated \<or> (\<exists>es. errors validated = Some es \<and> es \<noteq> [])) \<and>
             \<not> (\<exists>es. errors validated = Some es \<and>
                   (\<exists>e \<in> set es. includesStr (toLowerCase e) ''json''))))) \<and>
      rowsWithJSONErrors s + rowsWithOtherErrors s \<le> totalRows s"
proof -
  let ?s = "summary (processRowsWithQualityChecks E rows)"
  have json: "rowsWithJSONErrors ?s = int (length (filter (countedAsJSON E) (enumerate 0 rows)))"
    by (simp add: processRowsWithQualityChecks_def Let_def firstPass_json)
  have other: "rowsWithOtherErrors ?s = int (length (filter (countedAsOther E) (enumerate 0 rows)))"
    by (simp add: processRowsWithQualityChecks_def Let_def firstPass_other)
  have total: "totalRows ?s = int (length (enumerate 0 rows))"
    by (simp add: processRowsWithQualityChecks_def Let_def)
  have excl: "\<not> (countedAsJSON E ir \<and> countedAsOther E ir)" for ir
    by (auto simp: countedAsJSON_def countedAsOther_def split: prod.splits sum.splits)
  have cj: "countedAsJSON E (i, row) =
         (\<exists>validated es. validateRow E row i = Inr validated \<and> errors validated = Some es \<and>
            (\<exists>e \<in> set es. includesStr (toLowerCase e) ''json''))" for i row
    by (auto simp: countedAsJSON_def hasJSONError_def split: sum.splits option.splits)
  have co: "countedAsOther E (i, row) =
         ((\<exists>errorMsg. validateRow E row i = Inl errorMsg) \<or>
          (\<exists>validated. validateRow E row i = Inr validated \<and>
             (\<not> isValid validated \<or> (\<exists>es. errors validated = Some es \<and> es \<noteq> [])) \<and>
             \<not> (\<exists>es. errors validated = Some es \<and>
                   (\<exists>e \<in> set es. includesStr (toLowerCase e) ''json''))))" for i row
    by (auto simp: countedAsOther_def hasJSONError_def hasIssue_def split: sum.splits option.splits)
  have "length (filter (countedAsJSON E) (enumerate 0 rows))
          + length (filter (countedAsOther E) (enumerate 0 rows)) \<le> length (enumerate 0 rows)"
    by (rule disjoint_filters_length) (rule excl)
  then have sum: "rowsWithJSONErrors ?s + rowsWithOtherErrors ?s \<le> totalRows ?s"
    using json other total by linarith
  show ?thesis
    unfolding Let_def using json other excl cj co sum by blast
qed

theorem error_counters_are_exclusive_witness:
  "rowsWithJSONErrors (summary (processRowsWithQualityChecks exampleEngine [brokenJSONRow, RowNull])) = 1 \<and>
   rowsWithOtherErrors (summary (processRowsWithQualityChecks exampleEngine [brokenJSONRow, RowNull])) = 1"
proof -
  have j0: "countedAsJSON exampleEngine (0, brokenJSONRow)"
    by code_simp
  have j1: "\<not> countedAsJSON exampleEngine (Suc 0, RowNull)"
    by code_simp
  have o0: "\<not> countedAsOther exampleEngine (0, brokenJSONRow)"
    by code_simp
  have o1: "countedAsOther exampleEngine (Suc 0, RowNull)"
    by code_simp
  show ?thesis
    using error_counters_are_exclusive [of exampleEngine "[brokenJSONRow, RowNull]"] j0 j1 o0 o1
    by (simp add: Let_def)
qed

subsection \<open>Errors invalidate, warnings do not\<close>

text \<open>
  Claim C3. For every row (an object with any fields), \<^verbatim>\<open>validateRow\<close> returns a record
  that is valid exactly when the checks found no error-class issue; warnings play no part
  in it. The \<^verbatim>\<open>errors\<close> property of the record holds exactly the error-class issues when
  there is at least one, and exactly the warning-class issues when there is no error (the
  property is \<^verbatim>\<open>undefined\<close> when there is neither).
\<close>

theorem validateRow_errors_decide_validity:
  "validateRow E (Row row) index = Inr (validateFields E row) \<and>
   isValid (validateFields E row) = (errs (rowIssues E row) = []) \<and>
   errors (validateFields E row) =
     (if errs (rowIssues E row) \<noteq> [] then Some (errs (rowIssues E row))
      else if warns (rowIssues E row) \<noteq> [] then Some (warns (rowIssues E row))
      else None)"
  by (simp add: validateFields_def Let_def)

theorem validateRow_errors_decide_validity_witness:
  "isValid (validateFields exampleEngine
              [(''propertyAddress'', JStr ''Elm''), (''county'', JStr ''Kings''),
               (''lender'', JStr ''X Bank'')]) \<and>
   errors (validateFields exampleEngine
              [(''propertyAddress'', JStr ''Elm''), (''county'', JStr ''Kings''),
               (''lender'', JStr ''X Bank'')])
     = Some [''Property address seems too short'', ''UPB is missing'', ''Complaint date is missing''] \<and>
   \<not> isValid (validateFields exampleEngine
              [(''propertyAddress'', JStr ''Elm''), (''upb'', JStr ''n/a'')]) \<and>
   errors (validateFields exampleEngine
              [(''propertyAddress'', JStr ''Elm''), (''upb'', JStr ''n/a'')])
     = Some [''Missing or empty county'', ''Missing or empty lender/plaintiff'',
             ''UPB is empty or contains no numbers'']"
proof -
  have a: "rowIssues exampleEngine
             [(''propertyAddress'', JStr ''Elm''), (''county'', JStr ''Kings''),
              (''lender'', JStr ''X Bank'')]
           = \<lparr>errs = [],
              warns = [''Property address seems too short'', ''UPB is missing'',
                       ''Complaint date is missing'']\<rparr>"
    by code_simp
  have b: "rowIssues exampleEngine [(''propertyAddress'', JStr ''Elm''), (''upb'', JStr ''n/a'')]
           = \<lparr>errs = [''Missing or empty county'', ''Missing or empty lender/plaintiff'',
                      ''UPB is empty or contains no numbers''],
              warns = [''Property address seems too short'', ''Complaint date is missing'']\<rparr>"
    by code_simp
  show ?thesis
    using validateRow_errors_decide_validity
            [of exampleEngine "[(''propertyAddress'', JStr ''Elm''), (''county'', JStr ''Kings''),
                                (''lender'', JStr ''X Bank'')]" 0]
          validateRow_errors_decide_validity
            [of exampleEngine "[(''propertyAddress'', JStr ''Elm''), (''upb'', JStr ''n/a'')]" 0]
    by (simp add: a b)
qed

section \<open>Properties of duplicate detection\<close>

text \<open>
  A record registers its keys when it is valid and \<^verbatim>\<open>detectDuplicates\<close> does not flag it.
  The registrant of a key before index \<open>i\<close> is the first record below \<open>i\<close> that registers
  its keys and has this key among them.
\<close>

definition registers :: "engine \<Rightarrow> ProcessedComplaint list \<Rightarrow> nat \<Rightarrow> bool" where
  "registers E rows j = (isValid (rows ! j) \<and> \<not> dupFlag (detectDuplicates E rows ! j))"

definition registrant :: "engine \<Rightarrow> ProcessedComplaint list \<Rightarrow> nat \<Rightarrow> string \<Rightarrow> nat option" where
  "registrant E rows i key =
     find (\<lambda>j. registers E rows j \<and> key \<in> set (createRowKeys E (rows ! j))) [0..<i]"

text \<open>\<^verbatim>\<open>seenKeys\<close> when the loop reaches index \<open>i\<close>.\<close>

definition seenKeysAt :: "engine \<Rightarrow> ProcessedComplaint list \<Rightarrow> nat \<Rightarrow> (string \<rightharpoonup> nat)" where
  "seenKeysAt E rows i = fst (detectLoop E (take i rows))"

text \<open>
  Three processed records for running the duplicate detector and the roll-up: a valid
  record, a valid record that differs from it by a full stop in the address, and an
  invalid record (it has no lender) of the same address and date.
\<close>

definition originalRecord :: ProcessedComplaint where
  "originalRecord =
     \<lparr>rawFields = [(''propertyAddress'', JStr ''12 Oak St''), (''county'', JStr ''Kings''),
                   (''lender'', JStr ''MNO Bank''), (''meetsCriteria'', JStr ''Meets criteria'')],
      upb = Some (Fin 195000),
      complaintDate = Some 1760918400000,
      isValid = True,
      errors = None,
      normalizedCounty = ''Kings'',
      normalizedLender = ''Mno Bank'',
      isDuplicate = JUndefined\<rparr>"

definition variantRecord :: ProcessedComplaint where
  "variantRecord =
     originalRecord\<lparr>rawFields := [(''propertyAddress'', JStr ''12 Oak St.''),
                                   (''county'', JStr ''Kings''), (''lender'', JStr ''MNO Bank''),
                                   (''meetsCriteria'', JStr ''Meets criteria'')]\<rparr>"

definition invalidRecord :: ProcessedComplaint where
  "invalidRecord =
     \<lparr>rawFields = [(''propertyAddress'', JStr ''12 Oak St''), (''county'', JStr ''Kings'')],
      upb = Some (Fin 195000),
      complaintDate = Some 1760918400000,
      isValid = False,
      errors = Some [''Missing or empty lender/plaintiff''],
      normalizedCounty = ''Kings'',
      normalizedLender = ''Unknown'',
      isDuplicate = JUndefined\<rparr>"

definition exampleRecords :: "ProcessedComplaint list" where
  "exampleRecords = [originalRecord, variantRecord, invalidRecord]"

text \<open>
  Three valid records on which the order of the strategies decides: the third has the
  address and the date of the second, which is of another county, and shares the first 20
  characters of the address, the county, the lender and the date with the first.
\<close>

definition northRecord :: ProcessedComplaint where
  "northRecord =
     \<lparr>rawFields = [(''propertyAddress'', JStr ''100 Long Meadow Boulevard North''),
                   (''county'', JStr ''Kings''), (''lender'', JStr ''MNO Bank'')],
      upb = Some (Fin 195000),
      complaintDate = Some 1760918400000,
      isValid = True,
      errors = None,
      normalizedCounty = ''Kings'',
      normalizedLender = ''Mno Bank'',
      isDuplicate = JUndefined\<rparr>"

definition southRecord :: ProcessedComplaint where
  "southRecord =
     northRecord\<lparr>rawFields := [(''propertyAddress'', JStr ''100 Long Meadow Boulevard South''),
                                (''county'', JStr ''Kings''), (''lender'', JStr ''MNO Bank'')]\<rparr>"

definition strategyRecords :: "ProcessedComplaint list" where
  "strategyRecords = [northRecord, southRecord\<lparr>normalizedCounty := ''Queens''\<rparr>, southRecord]"




lemma join_bar_nonempty: "join ''|'' (x # y # ys) \<noteq> []"
  by simp

lemma createRowKeys_nonempty: "k \<in> set (createRowKeys E row) \<Longrightarrow> k \<noteq> []"
  by (auto simp: createRowKeys_def Let_def)

lemma findDuplicate_find:
  assumes "\<And>k j. seen k = Some j \<Longrightarrow> j \<noteq> i" and "\<And>k. k \<in> set ks \<Longrightarrow> k \<noteq> []"
  shows "findDuplicate seen i ks
           = (case find (\<lambda>k. seen k \<noteq> None) ks of None \<Rightarrow> None | Some k \<Rightarrow> seen k)"
  using assms by (induction ks) auto

lemma registerKeys_apply:
  "registerKeys seen i ks k = (if seen k = None \<and> k \<in> set ks \<and> k \<noteq> [] then Some i else seen k)"
  by (induction ks arbitrary: seen) auto

lemma detectLoop_snoc:
  "detectLoop E (xs @ [x]) = detectStep E (detectLoop E xs) (length xs, x)"
  by (simp add: detectLoop_def enumerate_append_eq)

lemma detectStep_snd:
  "\<exists>info. snd (detectStep E st ir) = snd st @ [info]"
  by (auto simp: detectStep_def Let_def split: prod.splits)

lemma detectLoop_length: "length (snd (detectLoop E xs)) = length xs"
proof (induction xs rule: rev_induct)
  case Nil
  show ?case by (simp add: detectLoop_def)
next
  case (snoc x xs)
  obtain info where "snd (detectStep E (detectLoop E xs) (length xs, x)) = snd (detectLoop E xs) @ [info]"
    using detectStep_snd by blast
  with snoc show ?case
    by (simp add: detectLoop_snoc)
qed

lemma detectLoop_prefix:
  "take (length xs) (snd (detectLoop E (xs @ ys))) = snd (detectLoop E xs)"
proof (induction ys rule: rev_induct)
  case Nil
  show ?case using detectLoop_length [of E xs] by simp
next
  case (snoc y ys)
  obtain info where
    "snd (detectStep E (detectLoop E (xs @ ys)) (length (xs @ ys), y))
       = snd (detectLoop E (xs @ ys)) @ [info]"
    using detectStep_snd by blast
  then have "snd (detectLoop E (xs @ ys @ [y])) = snd (detectLoop E (xs @ ys)) @ [info]"
    using detectLoop_snoc [of E "xs @ ys" y] by simp
  moreover have "length xs \<le> length (snd (detectLoop E (xs @ ys)))"
    by (simp add: detectLoop_length)
  ultimately show ?case
    using snoc by simp
qed

lemma detectDuplicates_length: "length (detectDuplicates E rows) = length rows"
  by (simp add: detectDuplicates_def detectLoop_length)

lemma detectDuplicates_take:
  "take n (detectDuplicates E rows) = snd (detectLoop E (take n rows))"
proof (cases "n \<le> length rows")
  case True
  then have "take (length (take n rows)) (snd (detectLoop E (take n rows @ drop n rows)))
               = snd (detectLoop E (take n rows))"
    using detectLoop_prefix [of "take n rows" E "drop n rows"] by blast
  with True show ?thesis
    by (simp add: detectDuplicates_def min_absorb2)
next
  case False
  then show ?thesis
    by (simp add: detectDuplicates_def detectLoop_length)
qed

text \<open>The entry of \<^verbatim>\<open>duplicateMap\<close> for index \<open>i\<close>, from the state the loop has there.\<close>

lemma detectDuplicates_nth:
  assumes "i < length rows"
  shows "detectDuplicates E rows ! i
           = last (snd (detectStep E (detectLoop E (take i rows)) (i, rows ! i)))"
proof -
  have t: "take (Suc i) rows = take i rows @ [rows ! i]"
    using assms by (simp add: take_Suc_conv_app_nth)
  have "take (Suc i) (detectDuplicates E rows) = snd (detectLoop E (take (Suc i) rows))"
    by (rule detectDuplicates_take)
  also have "\<dots> = snd (detectStep E (detectLoop E (take i rows)) (i, rows ! i))"
    using assms by (simp add: t detectLoop_snoc)
  finally have eq: "take (Suc i) (detectDuplicates E rows)
                      = snd (detectStep E (detectLoop E (take i rows)) (i, rows ! i))" .
  have len: "length (take (Suc i) (detectDuplicates E rows)) = Suc i"
    using assms by (simp add: detectDuplicates_length)
  have "detectDuplicates E rows ! i = take (Suc i) (detectDuplicates E rows) ! i"
    by simp
  also have "\<dots> = last (take (Suc i) (detectDuplicates E rows))"
    using len by (metis diff_Suc_1 last_conv_nth length_0_conv nat.distinct(1))
  finally show ?thesis
    using eq by simp
qed

lemma seenKeysAt_Suc:
  assumes "i < length rows"
  shows "seenKeysAt E rows (Suc i) = fst (detectStep E (detectLoop E (take i rows)) (i, rows ! i))"
  using assms by (simp add: seenKeysAt_def take_Suc_conv_app_nth detectLoop_snoc)

lemma registrant_less: "registrant E rows i k = Some j \<Longrightarrow> j < i"
  by (auto simp: registrant_def find_Some_iff)

lemma registrant_registers:
  "registrant E rows i k = Some j \<Longrightarrow> registers E rows j \<and> k \<in> set (createRowKeys E (rows ! j))"
  by (auto simp: registrant_def find_Some_iff)

lemma find_append_cases:
  "find P (xs @ ys) = (case find P xs of None \<Rightarrow> find P ys | Some x \<Rightarrow> Some x)"
  by (induction xs) auto

lemma registrant_Suc:
  "registrant E rows (Suc i) k =
     (case registrant E rows i k of
        Some j \<Rightarrow> Some j
      | None \<Rightarrow> if registers E rows i \<and> k \<in> set (createRowKeys E (rows ! i)) then Some i else None)"
  by (simp add: registrant_def find_append_cases split: option.splits)

text \<open>
  The invariant of the loop: \<^verbatim>\<open>seenKeys\<close> maps each key to its registrant, and the entry
  written for a row is decided by the registrants of its keys.
\<close>

lemma detect_invariant:
  assumes "i \<le> length rows"
  shows "seenKeysAt E rows i = registrant E rows i"
  using assms
proof (induction i)
  case 0
  show ?case
    by (rule ext) (simp add: seenKeysAt_def registrant_def detectLoop_def)
next
  case (Suc i)
  then have i: "i < length rows" and IH: "seenKeysAt E rows i = registrant E rows i"
    by simp_all
  let ?seen = "fst (detectLoop E (take i rows))"
  let ?ks = "createRowKeys E (rows ! i)"
  have seen: "?seen = registrant E rows i"
    using IH by (simp add: seenKeysAt_def)
  have nth: "detectDuplicates E rows ! i
               = last (snd (detectStep E (detectLoop E (take i rows)) (i, rows ! i)))"
    by (rule detectDuplicates_nth [OF i])
  have step: "seenKeysAt E rows (Suc i) = fst (detectStep E (detectLoop E (take i rows)) (i, rows ! i))"
    by (rule seenKeysAt_Suc [OF i])
  show ?case
  proof (cases "isValid (rows ! i)")
    case False
    then have "\<not> registers E rows i"
      by (simp add: registers_def)
    moreover from False have "seenKeysAt E rows (Suc i) = ?seen"
      using step by (simp add: detectStep_def split: prod.splits)
    ultimately show ?thesis
      using seen by (auto simp: registrant_Suc split: option.splits)
  next
    case True
    show ?thesis
    proof (cases "findDuplicate ?seen i ?ks = None")
      case dup: False
      with True have "dupFlag (detectDuplicates E rows ! i)"
        using nth by (simp add: detectStep_def Let_def split: prod.splits)
      then have "\<not> registers E rows i"
        by (simp add: registers_def)
      moreover from True dup have "seenKeysAt E rows (Suc i) = ?seen"
        using step by (simp add: detectStep_def Let_def split: prod.splits)
      ultimately show ?thesis
        using seen by (auto simp: registrant_Suc split: option.splits)
    next
      case nodup: True
      with \<open>isValid (rows ! i)\<close> have "\<not> dupFlag (detectDuplicates E rows ! i)"
        using nth by (simp add: detectStep_def Let_def split: prod.splits)
      with \<open>isValid (rows ! i)\<close> have reg: "registers E rows i"
        by (simp add: registers_def)
      from \<open>isValid (rows ! i)\<close> nodup
      have "seenKeysAt E rows (Suc i) = registerKeys ?seen i ?ks"
        using step by (simp add: detectStep_def Let_def split: prod.splits)
      then have "seenKeysAt E rows (Suc i) k = registrant E rows (Suc i) k" for k
        using seen reg createRowKeys_nonempty [of k E "rows ! i"]
        by (auto simp: registerKeys_apply registrant_Suc split: option.splits)
      then show ?thesis
        by (rule ext)
    qed
  qed
qed

lemma detect_entry:
  assumes "i < length rows"
  shows "detectDuplicates E rows ! i =
           (if \<not> isValid (rows ! i) then \<lparr>dupFlag = False, duplicateOf = None\<rparr>
            else (let found = (case find (\<lambda>k. registrant E rows i k \<noteq> None)
                                      (createRowKeys E (rows ! i)) of
                                 None \<Rightarrow> None
                               | Some k \<Rightarrow> registrant E rows i k)
                  in \<lparr>dupFlag = (found \<noteq> None), duplicateOf = found\<rparr>))"
proof -
  let ?seen = "fst (detectLoop E (take i rows))"
  have seen: "?seen = registrant E rows i"
    using detect_invariant [of i rows E] assms by (simp add: seenKeysAt_def)
  have nth: "detectDuplicates E rows ! i
               = last (snd (detectStep E (detectLoop E (take i rows)) (i, rows ! i)))"
    by (rule detectDuplicates_nth [OF assms])
  have "findDuplicate (registrant E rows i) i (createRowKeys E (rows ! i))
          = (case find (\<lambda>k. registrant E rows i k \<noteq> None) (createRowKeys E (rows ! i)) of
               None \<Rightarrow> None | Some k \<Rightarrow> registrant E rows i k)"
  proof (rule findDuplicate_find)
    fix k j assume "registrant E rows i k = Some j"
    then show "j \<noteq> i" using registrant_less by fastforce
  next
    fix k assume "k \<in> set (createRowKeys E (rows ! i))"
    then show "k \<noteq> []" by (rule createRowKeys_nonempty)
  qed
  then show ?thesis
    using nth seen by (simp add: detectStep_def Let_def split: prod.splits)
qed

subsection \<open>What \<^verbatim>\<open>detectDuplicates\<close> computes\<close>

text \<open>
  Claim C2. Run over any list of processed records, \<^verbatim>\<open>detectDuplicates\<close> writes one entry
  per record, and at every index \<open>i\<close> the map \<^verbatim>\<open>seenKeys\<close> holds, for each key, the first
  earlier record that registered it (a registrant is below \<open>i\<close>, valid, not flagged, and
  has the key among its own). An invalid record gets \<^verbatim>\<open>isDuplicate: false\<close> and registers
  nothing. A valid record has four keys, in this order: the exact key (normalised address,
  county and lender, the date and the UPB), the key without the UPB, the key of address and
  date, and the fuzzy key (the first 20 characters of the address, with county, lender and
  date). The record is flagged exactly when one of them has a registrant, and
  \<^verbatim>\<open>duplicateOf\<close> is then the registrant of the first such key in this order; a flagged
  record registers nothing, and a valid record that is not flagged registers each of its
  keys that has no registrant yet and overwrites none.
\<close>

theorem detectDuplicates_marks_and_registers:
  "length (detectDuplicates E rows) = length rows \<and>
   (\<forall>i \<le> length rows. seenKeysAt E rows i = registrant E rows i) \<and>
   (\<forall>i k j. registrant E rows i k = Some j \<longrightarrow>
      j < i \<and> isValid (rows ! j) \<and> \<not> dupFlag (detectDuplicates E rows ! j) \<and>
      k \<in> set (createRowKeys E (rows ! j))) \<and>
   (\<forall>i < length rows.
      (\<not> isValid (rows ! i) \<longrightarrow>
         detectDuplicates E rows ! i = \<lparr>dupFlag = False, duplicateOf = None\<rparr> \<and>
         seenKeysAt E rows (Suc i) = seenKeysAt E rows i) \<and>
      (isValid (rows ! i) \<longrightarrow>
         createRowKeys E (rows ! i) =
           (let address = normalizeForComparison E (getField (rawFields (rows ! i)) ''propertyAddress'');
                county = normalizeForComparison E
                           (JStr (if normalizedCounty (rows ! i) \<noteq> [] then normalizedCounty (rows ! i)
                                  else normalizeCounty E (getField (rawFields (rows ! i)) ''county'')));
                lender = normalizeForComparison E
                           (JStr (if normalizedLender (rows ! i) \<noteq> [] then normalizedLender (rows ! i)
                                  else normalizeLender E
                                         (orElse (getField (rawFields (rows ! i)) ''lender'')
                                                 (getField (rawFields (rows ! i)) ''plaintiff''))));
                dateStr = (case complaintDate (rows ! i) of None \<Rightarrow> [] | Some t \<Rightarrow> isoDate t);
                upbStr = (case upb (rows ! i) of None \<Rightarrow> [] | Some n \<Rightarrow> numToString n)
            in [address @ ''|'' @ county @ ''|'' @ lender @ ''|'' @ dateStr @ ''|'' @ upbStr,
                address @ ''|'' @ county @ ''|'' @ lender @ ''|'' @ dateStr,
                address @ ''|'' @ dateStr,
                take 20 address @ ''|'' @ county @ ''|'' @ lender @ ''|'' @ dateStr]) \<and>
         dupFlag (detectDuplicates E rows ! i)
           = (\<exists>k \<in> set (createRowKeys E (rows ! i)). registrant E rows i k \<noteq> None) \<and>
         duplicateOf (detectDuplicates E rows ! i)
           = (case find (\<lambda>k. registrant E rows i k \<noteq> None) (createRowKeys E (rows ! i)) of
                None \<Rightarrow> None
              | Some k \<Rightarrow> registrant E rows i k) \<and>
         (dupFlag (detectDuplicates E rows ! i) \<longrightarrow>
            seenKeysAt E rows (Suc i) = seenKeysAt E rows i) \<and>
         (\<not> dupFlag (detectDuplicates E rows ! i) \<longrightarrow>
            (\<forall>k. seenKeysAt E rows (Suc i) k =
                  (if seenKeysAt E rows i k = None \<and> k \<in> set (createRowKeys E (rows ! i))
                   then Some i else seenKeysAt E rows i k)))))"
proof -
  let ?D = "detectDuplicates E rows"
  have inv: "seenKeysAt E rows i = registrant E rows i" if "i \<le> length rows" for i
    using that by (rule detect_invariant)
  have reg: "j < i \<and> isValid (rows ! j) \<and> \<not> dupFlag (?D ! j) \<and> k \<in> set (createRowKeys E (rows ! j))"
    if "registrant E rows i k = Some j" for i k j
    using registrant_less [OF that] registrant_registers [OF that]
    by (simp add: registers_def)
  have invalid: "?D ! i = \<lparr>dupFlag = False, duplicateOf = None\<rparr> \<and>
                 seenKeysAt E rows (Suc i) = seenKeysAt E rows i"
    if i: "i < length rows" and nv: "\<not> isValid (rows ! i)" for i
  proof -
    have "?D ! i = \<lparr>dupFlag = False, duplicateOf = None\<rparr>"
      using detect_entry [OF i, of E] nv by simp
    moreover have "\<not> registers E rows i"
      using nv by (simp add: registers_def)
    then have "registrant E rows (Suc i) = registrant E rows i"
      by (auto simp: registrant_Suc split: option.splits)
    then have "seenKeysAt E rows (Suc i) = seenKeysAt E rows i"
      using inv [of i] inv [of "Suc i"] i by simp
    ultimately show ?thesis by simp
  qed
  have valid:
    "createRowKeys E (rows ! i) =
      (let address = normalizeForComparison E (getField (rawFields (rows ! i)) ''propertyAddress'');
           county = normalizeForComparison E
                      (JStr (if normalizedCounty (rows ! i) \<noteq> [] then normalizedCounty (rows ! i)
                             else normalizeCounty E (getField (rawFields (rows ! i)) ''county'')));
           lender = normalizeForComparison E
                      (JStr (if normalizedLender (rows ! i) \<noteq> [] then normalizedLender (rows ! i)
                             else normalizeLender E
                                    (orElse (getField (rawFields (rows ! i)) ''lender'')
                                            (getField (rawFields (rows ! i)) ''plaintiff''))));
           dateStr = (case complaintDate (rows ! i) of None \<Rightarrow> [] | Some t \<Rightarrow> isoDate t);
           upbStr = (case upb (rows ! i) of None \<Rightarrow> [] | Some n \<Rightarrow> numToString n)
       in [address @ ''|'' @ county @ ''|'' @ lender @ ''|'' @ dateStr @ ''|'' @ upbStr,
           address @ ''|'' @ county @ ''|'' @ lender @ ''|'' @ dateStr,
           address @ ''|'' @ dateStr,
           take 20 address @ ''|'' @ county @ ''|'' @ lender @ ''|'' @ dateStr]) \<and>
     dupFlag (?D ! i) = (\<exists>k \<in> set (createRowKeys E (rows ! i)). registrant E rows i k \<noteq> None) \<and>
     duplicateOf (?D ! i)
       = (case find (\<lambda>k. registrant E rows i k \<noteq> None) (createRowKeys E (rows ! i)) of
            None \<Rightarrow> None
          | Some k \<Rightarrow> registrant E rows i k) \<and>
     (dupFlag (?D ! i) \<longrightarrow> seenKeysAt E rows (Suc i) = seenKeysAt E rows i) \<and>
     (\<not> dupFlag (?D ! i) \<longrightarrow>
        (\<forall>k. seenKeysAt E rows (Suc i) k =
              (if seenKeysAt E rows i k = None \<and> k \<in> set (createRowKeys E (rows ! i))
               then Some i else seenKeysAt E rows i k)))"
    if i: "i < length rows" and v: "isValid (rows ! i)" for i
  proof -
    let ?ks = "createRowKeys E (rows ! i)"
    let ?found = "case find (\<lambda>k. registrant E rows i k \<noteq> None) ?ks of
                    None \<Rightarrow> None | Some k \<Rightarrow> registrant E rows i k"
    have entry: "?D ! i = \<lparr>dupFlag = (?found \<noteq> None), duplicateOf = ?found\<rparr>"
      using detect_entry [OF i, of E] v by (simp add: Let_def)
    have four:
      "createRowKeys E (rows ! i) =
        (let address = normalizeForComparison E (getField (rawFields (rows ! i)) ''propertyAddress'');
             county = normalizeForComparison E
                        (JStr (if normalizedCounty (rows ! i) \<noteq> [] then normalizedCounty (rows ! i)
                               else normalizeCounty E (getField (rawFields (rows ! i)) ''county'')));
             lender = normalizeForComparison E
                        (JStr (if normalizedLender (rows ! i) \<noteq> [] then normalizedLender (rows ! i)
                               else normalizeLender E
                                      (orElse (getField (rawFields (rows ! i)) ''lender'')
                                              (getField (rawFields (rows ! i)) ''plaintiff''))));
             dateStr = (case complaintDate (rows ! i) of None \<Rightarrow> [] | Some t \<Rightarrow> isoDate t);
             upbStr = (case upb (rows ! i) of None \<Rightarrow> [] | Some n \<Rightarrow> numToString n)
         in [address @ ''|'' @ county @ ''|'' @ lender @ ''|'' @ dateStr @ ''|'' @ upbStr,
             address @ ''|'' @ county @ ''|'' @ lender @ ''|'' @ dateStr,
             address @ ''|'' @ dateStr,
             take 20 address @ ''|'' @ county @ ''|'' @ lender @ ''|'' @ dateStr])"
      by (simp add: createRowKeys_def Let_def)
    have found_iff: "(?found \<noteq> None) = (\<exists>k \<in> set ?ks. registrant E rows i k \<noteq> None)"
      by (auto simp: find_None_iff find_Some_iff split: option.splits)
    have flag: "dupFlag (?D ! i) = (\<exists>k \<in> set ?ks. registrant E rows i k \<noteq> None)"
      using entry found_iff by simp
    have of: "duplicateOf (?D ! i) = ?found"
      using entry by simp
    have s: "seenKeysAt E rows i = registrant E rows i"
      and s': "seenKeysAt E rows (Suc i) = registrant E rows (Suc i)"
      using inv [of i] inv [of "Suc i"] i by simp_all
    have keep: "seenKeysAt E rows (Suc i) = seenKeysAt E rows i" if "dupFlag (?D ! i)"
    proof -
      from that have "\<not> registers E rows i"
        by (simp add: registers_def)
      then have "registrant E rows (Suc i) = registrant E rows i"
        by (auto simp: registrant_Suc split: option.splits)
      then show ?thesis using s s' by simp
    qed
    have add: "seenKeysAt E rows (Suc i) k =
                 (if seenKeysAt E rows i k = None \<and> k \<in> set ?ks then Some i
                  else seenKeysAt E rows i k)"
      if "\<not> dupFlag (?D ! i)" for k
    proof -
      from that v have "registers E rows i"
        by (simp add: registers_def)
      then show ?thesis
        using s s' by (auto simp: registrant_Suc split: option.splits)
    qed
    show ?thesis
      using four flag of keep add by blast
  qed
  show ?thesis
    using detectDuplicates_length [of E rows] inv reg invalid valid by blast
qed

theorem detectDuplicates_marks_and_registers_witness:
  "detectDuplicates exampleEngine exampleRecords ! 1 = \<lparr>dupFlag = True, duplicateOf = Some 0\<rparr> \<and>
   detectDuplicates exampleEngine exampleRecords ! 2 = \<lparr>dupFlag = False, duplicateOf = None\<rparr> \<and>
   createRowKeys exampleEngine (strategyRecords ! 2)
     = [''100 long meadow boulevard south|kings|mno bank|2025-10-20|195000'',
        ''100 long meadow boulevard south|kings|mno bank|2025-10-20'',
        ''100 long meadow boulevard south|2025-10-20'',
        ''100 long meadow boul|kings|mno bank|2025-10-20''] \<and>
   registrant exampleEngine strategyRecords 2 ''100 long meadow boulevard south|2025-10-20'' = Some 1 \<and>
   registrant exampleEngine strategyRecords 2 ''100 long meadow boul|kings|mno bank|2025-10-20'' = Some 0 \<and>
   detectDuplicates exampleEngine strategyRecords ! 2 = \<lparr>dupFlag = True, duplicateOf = Some 1\<rparr>"
proof -
  note T = detectDuplicates_marks_and_registers
             [of exampleEngine exampleRecords, THEN conjunct2, THEN conjunct2, THEN conjunct2,
              rule_format]
  have v1: "isValid (exampleRecords ! 1)" and v2: "\<not> isValid (exampleRecords ! 2)"
    by (simp_all add: exampleRecords_def variantRecord_def originalRecord_def invalidRecord_def)
  have len: "(1::nat) < length exampleRecords" "(2::nat) < length exampleRecords"
    by (simp_all add: exampleRecords_def)
  have some: "\<exists>k \<in> set (createRowKeys exampleEngine (exampleRecords ! 1)).
                registrant exampleEngine exampleRecords 1 k \<noteq> None"
    by code_simp
  have first: "(case find (\<lambda>k. registrant exampleEngine exampleRecords 1 k \<noteq> None)
                       (createRowKeys exampleEngine (exampleRecords ! 1)) of
                  None \<Rightarrow> None
                | Some k \<Rightarrow> registrant exampleEngine exampleRecords 1 k) = Some 0"
    by code_simp
  note V = T [of 1, OF len(1), THEN conjunct2, rule_format, OF v1]
  have flag: "dupFlag (detectDuplicates exampleEngine exampleRecords ! 1)"
    using V [THEN conjunct2, THEN conjunct1] some by (rule ssubst)
  have "duplicateOf (detectDuplicates exampleEngine exampleRecords ! 1) = Some 0"
    using V [THEN conjunct2, THEN conjunct2, THEN conjunct1] first by (rule trans)
  with flag have one: "detectDuplicates exampleEngine exampleRecords ! 1
                         = \<lparr>dupFlag = True, duplicateOf = Some 0\<rparr>"
    by (cases "detectDuplicates exampleEngine exampleRecords ! 1") simp
  have two: "detectDuplicates exampleEngine exampleRecords ! 2 = \<lparr>dupFlag = False, duplicateOf = None\<rparr>"
    using T [of 2, OF len(2), THEN conjunct1, rule_format, OF v2] by (rule conjunct1)
  note S = detectDuplicates_marks_and_registers
             [of exampleEngine strategyRecords, THEN conjunct2, THEN conjunct2, THEN conjunct2,
              rule_format]
  have sv: "isValid (strategyRecords ! 2)"
    by (simp add: strategyRecords_def southRecord_def northRecord_def)
  have slen: "(2::nat) < length strategyRecords"
    by (simp add: strategyRecords_def)
  note W = S [of 2, OF slen, THEN conjunct2, rule_format, OF sv]
  have keys: "createRowKeys exampleEngine (strategyRecords ! 2)
                = [''100 long meadow boulevard south|kings|mno bank|2025-10-20|195000'',
                   ''100 long meadow boulevard south|kings|mno bank|2025-10-20'',
                   ''100 long meadow boulevard south|2025-10-20'',
                   ''100 long meadow boul|kings|mno bank|2025-10-20'']"
    by code_simp
  have third: "registrant exampleEngine strategyRecords 2 ''100 long meadow boulevard south|2025-10-20''
                 = Some 1"
    and fourth: "registrant exampleEngine strategyRecords 2
                   ''100 long meadow boul|kings|mno bank|2025-10-20'' = Some 0"
    by code_simp+
  have ssome: "\<exists>k \<in> set (createRowKeys exampleEngine (strategyRecords ! 2)).
                 registrant exampleEngine strategyRecords 2 k \<noteq> None"
    using keys third by simp
  have sfirst: "(case find (\<lambda>k. registrant exampleEngine strategyRecords 2 k \<noteq> None)
                        (createRowKeys exampleEngine (strategyRecords ! 2)) of
                   None \<Rightarrow> None
                 | Some k \<Rightarrow> registrant exampleEngine strategyRecords 2 k) = Some 1"
    by code_simp
  have sflag: "dupFlag (detectDuplicates exampleEngine strategyRecords ! 2)"
    using W [THEN conjunct2, THEN conjunct1] ssome by (rule ssubst)
  have "duplicateOf (detectDuplicates exampleEngine strategyRecords ! 2) = Some 1"
    using W [THEN conjunct2, THEN conjunct2, THEN conjunct1] sfirst by (rule trans)
  with sflag have three: "detectDuplicates exampleEngine strategyRecords ! 2
                            = \<lparr>dupFlag = True, duplicateOf = Some 1\<rparr>"
    by (cases "detectDuplicates exampleEngine strategyRecords ! 2") simp
  from one two keys third fourth three show ?thesis
    by (intro conjI)
qed

subsection \<open>A duplicate points at an earlier original\<close>

text \<open>
  Claim C10. For every list of processed records and every record that \<^verbatim>\<open>detectDuplicates\<close>
  flags, the record is valid, its \<^verbatim>\<open>duplicateOf\<close> is defined and strictly below its own
  index, and the record it names is valid and not flagged itself.
\<close>

theorem duplicateOf_names_an_earlier_original:
  "\<forall>i < length rows.
     dupFlag (detectDuplicates E rows ! i) \<longrightarrow>
       isValid (rows ! i) \<and>
       (\<exists>j. duplicateOf (detectDuplicates E rows ! i) = Some j \<and> j < i \<and>
            isValid (rows ! j) \<and> \<not> dupFlag (detectDuplicates E rows ! j))"
proof (intro allI impI)
  fix i
  assume i: "i < length rows" and flag: "dupFlag (detectDuplicates E rows ! i)"
  let ?found = "case find (\<lambda>k. registrant E rows i k \<noteq> None) (createRowKeys E (rows ! i)) of
                  None \<Rightarrow> None | Some k \<Rightarrow> registrant E rows i k"
  have v: "isValid (rows ! i)"
    using detect_entry [OF i, of E] flag by (cases "isValid (rows ! i)") simp_all
  then have entry: "detectDuplicates E rows ! i = \<lparr>dupFlag = (?found \<noteq> None), duplicateOf = ?found\<rparr>"
    using detect_entry [OF i, of E] by (simp add: Let_def)
  with flag obtain j where found: "?found = Some j"
    by auto
  then obtain k where "registrant E rows i k = Some j"
    by (auto split: option.splits)
  then have "j < i" and "registers E rows j"
    using registrant_less registrant_registers by blast+
  then have "duplicateOf (detectDuplicates E rows ! i) = Some j \<and> j < i \<and>
             isValid (rows ! j) \<and> \<not> dupFlag (detectDuplicates E rows ! j)"
    using entry found by (simp add: registers_def)
  with v show "isValid (rows ! i) \<and>
       (\<exists>j. duplicateOf (detectDuplicates E rows ! i) = Some j \<and> j < i \<and>
            isValid (rows ! j) \<and> \<not> dupFlag (detectDuplicates E rows ! j))"
    by blast
qed

theorem duplicateOf_names_an_earlier_original_witness:
  "\<exists>j. duplicateOf (detectDuplicates exampleEngine exampleRecords ! 1) = Some j \<and> j < 1 \<and>
        isValid (exampleRecords ! j) \<and> \<not> dupFlag (detectDuplicates exampleEngine exampleRecords ! j)"
proof -
  have flag: "dupFlag (detectDuplicates exampleEngine exampleRecords ! 1)"
    by code_simp
  have len: "(1::nat) < length exampleRecords"
    by (simp add: exampleRecords_def)
  show ?thesis
    using duplicateOf_names_an_earlier_original [of exampleRecords exampleEngine] flag len
    by blast
qed

section \<open>The records of the pipeline\<close>

subsection \<open>The issue entry of a row\<close>

text \<open>The entries that the first pass pushes for a row: none or one.\<close>

definition firstPassIssues :: "engine \<Rightarrow> nat \<times> ComplaintRow \<Rightarrow> DataQualityIssue list" where
  "firstPassIssues E ir =
     (case ir of (index, row) \<Rightarrow>
        (case validateRow E row index of
           Inr validated \<Rightarrow>
             if hasIssue validated
             then [\<lparr>rowIndex = index, issueRow = row,
                    issueErrors = (case errors validated of None \<Rightarrow> [] | Some es \<Rightarrow> es),
                    issueErrorsShared = (errors validated \<noteq> None),
                    issueIsDuplicate = False, issueDuplicateOf = None\<rparr>]
             else []
         | Inl errorMsg \<Rightarrow>
             [\<lparr>rowIndex = index, issueRow = row,
               issueErrors = [''Validation exception: '' @ errorMsg],
               issueErrorsShared = False,
               issueIsDuplicate = False, issueDuplicateOf = None\<rparr>]))"

text \<open>The entries of \<^verbatim>\<open>duplicateMap\<close> in the pipeline.\<close>

definition pipelineDuplicates :: "engine \<Rightarrow> ComplaintRow list \<Rightarrow> DuplicateInfo list" where
  "pipelineDuplicates E rows =
     detectDuplicates E (map (normalizeRecord E) (fpProcessed (firstPass E rows)))"

text \<open>A row with two warnings and no error.\<close>

definition warnedRow :: ComplaintRow where
  "warnedRow =
     Row [(''propertyAddress'', JStr ''12 Oak St''), (''county'', JStr ''Kings''),
          (''lender'', JStr ''MNO Bank'')]"

lemma firstPassStep_issues:
  "fpIssues (firstPassStep E st ir) = fpIssues st @ firstPassIssues E ir"
  by (simp add: firstPassStep_def firstPassIssues_def split: prod.splits sum.splits)

lemma foldl_firstPass_issues:
  "fpIssues (foldl (firstPassStep E) st xs) = fpIssues st @ concat (map (firstPassIssues E) xs)"
  by (induction xs arbitrary: st) (simp_all add: firstPassStep_issues)

lemma firstPass_issues:
  "fpIssues (firstPass E rows) = concat (map (firstPassIssues E) (enumerate 0 rows))"
  by (simp add: firstPass_def foldl_firstPass_issues)

lemma firstPassIssues_index:
  "issue \<in> set (firstPassIssues E (j, row)) \<Longrightarrow> rowIndex issue = j"
  by (auto simp: firstPassIssues_def split: sum.splits if_splits)

lemma findIssue_append:
  "findIssue i (xs @ ys) = (case findIssue i xs of None \<Rightarrow> findIssue i ys | Some x \<Rightarrow> Some x)"
  by (induction xs) (simp_all add: findIssue_def)

lemma findIssue_other:
  "(\<And>issue. issue \<in> set xs \<Longrightarrow> rowIndex issue \<noteq> i) \<Longrightarrow> findIssue i xs = None"
  by (induction xs) (simp_all add: findIssue_def)

lemma findIssue_later:
  assumes "i < n"
  shows "findIssue i (concat (map (firstPassIssues E) (enumerate n rows))) = None"
proof (rule findIssue_other)
  fix issue
  assume "issue \<in> set (concat (map (firstPassIssues E) (enumerate n rows)))"
  then obtain j row where "(j, row) \<in> set (enumerate n rows)"
      and "issue \<in> set (firstPassIssues E (j, row))"
    by auto
  then have "n \<le> j" and "rowIndex issue = j"
    by (auto simp: in_set_enumerate_eq dest: firstPassIssues_index)
  with assms show "rowIndex issue \<noteq> i"
    by simp
qed

lemma findIssue_firstPass_from:
  "n \<le> i \<Longrightarrow> i < n + length rows \<Longrightarrow>
   findIssue i (concat (map (firstPassIssues E) (enumerate n rows)))
     = findIssue i (firstPassIssues E (i, rows ! (i - n)))"
proof (induction rows arbitrary: n)
  case Nil
  then show ?case by simp
next
  case (Cons r rs)
  show ?case
  proof (cases "i = n")
    case True
    have "findIssue i (concat (map (firstPassIssues E) (enumerate (Suc n) rs))) = None"
      using True by (intro findIssue_later) simp
    with True show ?thesis
      by (simp add: findIssue_append split: option.splits)
  next
    case False
    with Cons.prems have gt: "Suc n \<le> i" and lt: "i < Suc n + length rs"
      by simp_all
    have "findIssue i (firstPassIssues E (n, r)) = None"
      using False by (intro findIssue_other) (auto dest: firstPassIssues_index)
    moreover have "(r # rs) ! (i - n) = rs ! (i - Suc n)"
      using gt by (simp add: nth_Cons')
    ultimately show ?thesis
      using Cons.IH [OF gt lt] by (simp add: findIssue_append)
  qed
qed

lemma findIssue_firstPass:
  "i < length rows \<Longrightarrow>
   findIssue i (fpIssues (firstPass E rows)) = findIssue i (firstPassIssues E (i, rows ! i))"
  using findIssue_firstPass_from [of 0 i rows E] by (simp add: firstPass_issues)

subsection \<open>The record of a row after the second pass\<close>

lemma findIssue_updateFirstIssue:
  "updateFirstIssue j d issueList = Some updated \<Longrightarrow> i \<noteq> j \<Longrightarrow>
   findIssue i updated = findIssue i issueList"
proof (induction issueList arbitrary: updated)
  case Nil
  then show ?case by simp
next
  case (Cons issue rest)
  then show ?case
    by (auto simp: findIssue_def markIssue_def split: if_splits)
qed

lemma secondPassStep_findIssue:
  assumes "i \<noteq> index"
  shows "findIssue i (spIssues (secondPassStep rows st (index, info))) = findIssue i (spIssues st)"
proof (cases "updateFirstIssue index (duplicateOf info) (spIssues st)")
  case None
  have "findIssue i [\<lparr>rowIndex = index, issueRow = rows ! index,
                      issueErrors = [duplicateMessage (duplicateOf info)],
                      issueErrorsShared = False, issueIsDuplicate = True,
                      issueDuplicateOf = duplicateOf info\<rparr>] = None"
    using assms by (simp add: findIssue_def)
  with None show ?thesis
    by (simp add: secondPassStep_def findIssue_append split: option.splits)
next
  case (Some updated)
  then have "findIssue i updated = findIssue i (spIssues st)"
    using assms by (rule findIssue_updateFirstIssue)
  with Some show ?thesis
    by (simp add: secondPassStep_def)
qed

lemma secondPassStep_nth:
  "spProcessed (secondPassStep rows st (index, info)) ! i =
     (if i = index \<and> index < length (spProcessed st) \<and> dupFlag info
      then markRecord (duplicateOf info) (findIssue index (spIssues st)) (spProcessed st ! index)
      else spProcessed st ! i)"
  by (cases "index < length (spProcessed st)")
     (simp_all add: secondPassStep_def nth_list_update list_update_beyond)

lemma foldl_secondPass_nth:
  "i < length (spProcessed st) \<Longrightarrow>
   spProcessed (foldl (secondPassStep rows) st (enumerate n xs)) ! i =
     (if n \<le> i \<and> i < n + length xs \<and> dupFlag (xs ! (i - n))
      then markRecord (duplicateOf (xs ! (i - n))) (findIssue i (spIssues st)) (spProcessed st ! i)
      else spProcessed st ! i)"
proof (induction xs arbitrary: n st)
  case Nil
  then show ?case by auto
next
  case (Cons x xs)
  let ?st = "secondPassStep rows st (n, x)"
  from Cons.prems have len: "i < length (spProcessed ?st)"
    by (simp add: secondPassStep_length)
  note IH = Cons.IH [OF len, of "Suc n"]
  show ?case
  proof (cases "i = n")
    case True
    with IH Cons.prems show ?thesis
      by (simp add: secondPassStep_nth)
  next
    case False
    then have "findIssue i (spIssues ?st) = findIssue i (spIssues st)"
      by (rule secondPassStep_findIssue)
    moreover have "spProcessed ?st ! i = spProcessed st ! i"
      using False by (simp add: secondPassStep_nth)
    moreover have "(x # xs) ! (i - n) = xs ! (i - Suc n)" if "n \<le> i"
      using that False by (simp add: nth_Cons')
    ultimately show ?thesis
      using IH False by auto
  qed
qed

lemma processed_nth:
  assumes "i < length rows"
  shows "processed (processRowsWithQualityChecks E rows) ! i =
           (if dupFlag (pipelineDuplicates E rows ! i)
            then markRecord (duplicateOf (pipelineDuplicates E rows ! i))
                   (findIssue i (firstPassIssues E (i, rows ! i)))
                   (normalizeRecord E (validationOutcome E (i, rows ! i)))
            else normalizeRecord E (validationOutcome E (i, rows ! i)))"
proof -
  let ?normalized = "map (normalizeRecord E) (fpProcessed (firstPass E rows))"
  let ?dm = "detectDuplicates E ?normalized"
  let ?st = "\<lparr>spProcessed = ?normalized, spIssues = fpIssues (firstPass E rows),
              spDuplicateCount = 0\<rparr>"
  have len: "length ?normalized = length rows"
    by (simp add: firstPass_processed)
  then have dlen: "length ?dm = length rows"
    by (simp add: detectDuplicates_length)
  have n: "?normalized ! i = normalizeRecord E (validationOutcome E (i, rows ! i))"
    using assms by (simp add: firstPass_processed nth_enumerate_eq)
  have "processed (processRowsWithQualityChecks E rows) ! i
          = spProcessed (foldl (secondPassStep rows) ?st (enumerate 0 ?dm)) ! i"
    by (simp add: processRowsWithQualityChecks_def Let_def)
  also have "\<dots> = (if dupFlag (?dm ! i)
                    then markRecord (duplicateOf (?dm ! i)) (findIssue i (spIssues ?st))
                           (spProcessed ?st ! i)
                    else spProcessed ?st ! i)"
    using assms len dlen foldl_secondPass_nth [of i ?st rows 0 ?dm] by simp
  finally show ?thesis
    using assms n by (simp add: pipelineDuplicates_def findIssue_firstPass)
qed

lemma validateFields_errors_nonempty:
  "errors (validateFields E row) = Some es \<Longrightarrow> es \<noteq> []"
  by (auto simp: validateFields_def Let_def split: if_splits)

lemma validateRow_errors_nonempty:
  "validateRow E row index = Inr validated \<Longrightarrow> errors validated = Some es \<Longrightarrow> es \<noteq> []"
  by (cases row) (auto dest: validateFields_errors_nonempty)

text \<open>An invalid record is never flagged, so the second pass leaves it as it is.\<close>

lemma processed_nth_invalid:
  assumes "i < length rows"
    and "\<not> isValid (normalizeRecord E (validationOutcome E (i, rows ! i)))"
  shows "processed (processRowsWithQualityChecks E rows) ! i
           = normalizeRecord E (validationOutcome E (i, rows ! i))"
proof -
  let ?normalized = "map (normalizeRecord E) (fpProcessed (firstPass E rows))"
  have len: "i < length ?normalized"
    using assms(1) by (simp add: firstPass_processed)
  have n: "?normalized ! i = normalizeRecord E (validationOutcome E (i, rows ! i))"
    using assms(1) by (simp add: firstPass_processed nth_enumerate_eq)
  have "\<not> dupFlag (pipelineDuplicates E rows ! i)"
    using detect_entry [OF len, of E] assms(2) n by (simp add: pipelineDuplicates_def)
  then show ?thesis
    using processed_nth [OF assms(1), of E] by simp
qed

subsection \<open>A row that throws does not stop the batch\<close>

text \<open>
  Claim C5. For every input list the pipeline returns, with one processed record per
  input row. Where the validation of a row throws, the record of that row is invalid and
  carries the single synthetic error \<^verbatim>\<open>Validation failed: <message>\<close>. Every other row is
  processed all the same: its record has the validity and the coerced fields that
  \<^verbatim>\<open>validateRow\<close> computes for it, and the issues too; when the row is flagged as a
  duplicate and has issues, the message \<^verbatim>\<open>Duplicate row (matches row N)\<close> stands in front of
  them, because the issue entry of the row and the record share one array.
\<close>

theorem row_exception_is_contained:
  "let ps = processed (processRowsWithQualityChecks E rows);
       duplicateMap = pipelineDuplicates E rows
   in length ps = length rows \<and>
      (\<forall>i < length rows.
         (case validateRow E (rows ! i) i of
            Inl errorMsg \<Rightarrow>
              \<not> isValid (ps ! i) \<and> errors (ps ! i) = Some [''Validation failed: '' @ errorMsg]
          | Inr validated \<Rightarrow>
              isValid (ps ! i) = isValid validated \<and>
              errors (ps ! i) =
                (if dupFlag (duplicateMap ! i)
                 then map_option (unshiftDuplicate (duplicateOf (duplicateMap ! i))) (errors validated)
                 else errors validated) \<and>
              rawFields (ps ! i) = rawFields validated \<and>
              upb (ps ! i) = upb validated \<and>
              complaintDate (ps ! i) = complaintDate validated))"
proof -
  let ?ps = "processed (processRowsWithQualityChecks E rows)"
  let ?dm = "pipelineDuplicates E rows"
  have len: "length ?ps = length rows"
    by (rule processed_length)
  have "case validateRow E (rows ! i) i of
          Inl errorMsg \<Rightarrow>
            \<not> isValid (?ps ! i) \<and> errors (?ps ! i) = Some [''Validation failed: '' @ errorMsg]
        | Inr validated \<Rightarrow>
            isValid (?ps ! i) = isValid validated \<and>
            errors (?ps ! i) =
              (if dupFlag (?dm ! i)
               then map_option (unshiftDuplicate (duplicateOf (?dm ! i))) (errors validated)
               else errors validated) \<and>
            rawFields (?ps ! i) = rawFields validated \<and>
            upb (?ps ! i) = upb validated \<and>
            complaintDate (?ps ! i) = complaintDate validated"
    if i: "i < length rows" for i
  proof (cases "validateRow E (rows ! i) i")
    case (Inl errorMsg)
    then have out: "validationOutcome E (i, rows ! i) = failedRecord (rows ! i) errorMsg"
      by (simp add: validationOutcome_def)
    then have "\<not> isValid (normalizeRecord E (validationOutcome E (i, rows ! i)))"
      by (simp add: normalizeRecord_def failedRecord_def)
    then have "?ps ! i = normalizeRecord E (validationOutcome E (i, rows ! i))"
      using i by (intro processed_nth_invalid)
    with Inl out show ?thesis
      by (simp add: normalizeRecord_def failedRecord_def)
  next
    case (Inr validated)
    then have out: "validationOutcome E (i, rows ! i) = validated"
      by (simp add: validationOutcome_def)
    have 1: "isValid (?ps ! i) = isValid validated"
      using processed_nth_untouched [of isValid i rows E] i out
      by (simp add: untouchedBySecondPass_def normalizeRecord_def)
    have 3: "rawFields (?ps ! i) = rawFields validated"
      using processed_nth_untouched [of rawFields i rows E] i out
      by (simp add: untouchedBySecondPass_def normalizeRecord_def)
    have 4: "upb (?ps ! i) = upb validated"
      using processed_nth_untouched [of upb i rows E] i out
      by (simp add: untouchedBySecondPass_def normalizeRecord_def)
    have 5: "complaintDate (?ps ! i) = complaintDate validated"
      using processed_nth_untouched [of complaintDate i rows E] i out
      by (simp add: untouchedBySecondPass_def normalizeRecord_def)
    have 2: "errors (?ps ! i) =
               (if dupFlag (?dm ! i)
                then map_option (unshiftDuplicate (duplicateOf (?dm ! i))) (errors validated)
                else errors validated)"
    proof (cases "errors validated")
      case None
      with Inr out show ?thesis
        using processed_nth [OF i, of E]
        by (simp add: markRecord_def firstPassIssues_def findIssue_def normalizeRecord_def)
    next
      case (Some es)
      with Inr have "es \<noteq> []"
        by (rule validateRow_errors_nonempty)
      with Some have "hasIssue validated"
        by (simp add: hasIssue_def)
      with Inr Some out show ?thesis
        using processed_nth [OF i, of E]
        by (simp add: markRecord_def firstPassIssues_def findIssue_def normalizeRecord_def)
    qed
    from Inr 1 2 3 4 5 show ?thesis
      by simp
  qed
  with len show ?thesis
    unfolding Let_def by blast
qed

theorem row_exception_is_contained_witness:
  "length (processed (processRowsWithQualityChecks exampleEngine [RowNull, warnedRow, warnedRow])) = 3 \<and>
   \<not> isValid (processed (processRowsWithQualityChecks exampleEngine [RowNull, warnedRow, warnedRow]) ! 0) \<and>
   errors (processed (processRowsWithQualityChecks exampleEngine [RowNull, warnedRow, warnedRow]) ! 0)
     = Some [''Validation failed: Cannot read properties of null''] \<and>
   isValid (processed (processRowsWithQualityChecks exampleEngine [RowNull, warnedRow, warnedRow]) ! 1) \<and>
   errors (processed (processRowsWithQualityChecks exampleEngine [RowNull, warnedRow, warnedRow]) ! 1)
     = Some [''UPB is missing'', ''Complaint date is missing''] \<and>
   isValid (processed (processRowsWithQualityChecks exampleEngine [RowNull, warnedRow, warnedRow]) ! 2) \<and>
   errors (processed (processRowsWithQualityChecks exampleEngine [RowNull, warnedRow, warnedRow]) ! 2)
     = Some [''Duplicate row (matches row 2)'', ''UPB is missing'', ''Complaint date is missing'']"
proof -
  let ?rows = "[RowNull, warnedRow, warnedRow]"
  let ?ps = "processed (processRowsWithQualityChecks exampleEngine ?rows)"
  let ?v = "validateFields exampleEngine
              [(''propertyAddress'', JStr ''12 Oak St''), (''county'', JStr ''Kings''),
               (''lender'', JStr ''MNO Bank'')]"
  have v0: "validateRow exampleEngine (?rows ! 0) 0 = Inl ''Cannot read properties of null''"
    by (simp add: exampleEngine_def)
  have v1: "validateRow exampleEngine (?rows ! 1) 1 = Inr ?v"
    by (simp add: warnedRow_def)
  have v2: "validateRow exampleEngine (?rows ! 2) 2 = Inr ?v"
    by (simp add: warnedRow_def)
  have ok: "isValid ?v"
    by code_simp
  have es: "errors ?v = Some [''UPB is missing'', ''Complaint date is missing'']"
    by code_simp
  have dm: "pipelineDuplicates exampleEngine ?rows
              = [\<lparr>dupFlag = False, duplicateOf = None\<rparr>, \<lparr>dupFlag = False, duplicateOf = None\<rparr>,
                 \<lparr>dupFlag = True, duplicateOf = Some 1\<rparr>]"
    by code_simp
  have msg: "unshiftDuplicate (Some (Suc 0)) [''UPB is missing'', ''Complaint date is missing'']
               = [''Duplicate row (matches row 2)'', ''UPB is missing'', ''Complaint date is missing'']"
    by code_simp
  note T = row_exception_is_contained [of exampleEngine ?rows, unfolded Let_def]
  from T have len: "length ?ps = 3"
    by simp
  from T have all: "\<And>i. i < length ?rows \<Longrightarrow>
      (case validateRow exampleEngine (?rows ! i) i of
         Inl errorMsg \<Rightarrow>
           \<not> isValid (?ps ! i) \<and> errors (?ps ! i) = Some [''Validation failed: '' @ errorMsg]
       | Inr validated \<Rightarrow>
           isValid (?ps ! i) = isValid validated \<and>
           errors (?ps ! i) =
             (if dupFlag (pipelineDuplicates exampleEngine ?rows ! i)
              then map_option (unshiftDuplicate (duplicateOf (pipelineDuplicates exampleEngine ?rows ! i)))
                     (errors validated)
              else errors validated) \<and>
           rawFields (?ps ! i) = rawFields validated \<and>
           upb (?ps ! i) = upb validated \<and>
           complaintDate (?ps ! i) = complaintDate validated)"
    by blast
  have a0: "\<not> isValid (?ps ! 0) \<and> errors (?ps ! 0) = Some [''Validation failed: Cannot read properties of null'']"
    using all [of 0] by (simp only: v0) simp
  have a1: "isValid (?ps ! 1) \<and> errors (?ps ! 1) = Some [''UPB is missing'', ''Complaint date is missing'']"
    using all [of 1] by (simp only: v1) (simp add: dm ok es)
  have a2: "isValid (?ps ! 2) \<and>
            errors (?ps ! 2) = Some [''Duplicate row (matches row 2)'', ''UPB is missing'',
                                     ''Complaint date is missing'']"
    using all [of 2] by (simp only: v2) (simp add: dm ok es msg)
  from len a0 a1 a2 show ?thesis
    by simp
qed

section \<open>Properties of the validator\<close>

subsection \<open>How the issues of the checks reach the record\<close>









subsection \<open>Malformed JSON: repaired with a warning, or reported as an error\<close>









subsection \<open>Normalised names after the pipeline\<close>

text \<open>
  A row whose county and lender are blank, and a row that has a dash and a question mark
  there.
\<close>

definition blankNamesRow :: ComplaintRow where
  "blankNamesRow =
     Row [(''propertyAddress'', JStr ''12 Oak St''), (''county'', JStr '' ''),
          (''lender'', JStr '' '')]"

definition dashNamesRow :: ComplaintRow where
  "dashNamesRow =
     Row [(''propertyAddress'', JStr ''12 Oak St''), (''county'', JStr ''-''),
          (''lender'', JStr ''?'')]"

text \<open>
  Claim C6 does not hold of the code. The normalisers return \<^verbatim>\<open>Unknown\<close> only for a value
  that is falsy as it comes; a text that is blank, or that the normaliser strips to
  nothing, is normalised to the empty string. On every engine the pipeline leaves the
  first row below invalid, with the validator's own errors \<^verbatim>\<open>Missing or empty county\<close> and
  \<^verbatim>\<open>Missing or empty lender/plaintiff\<close>, and with empty normalised names; the second row
  is valid and has empty normalised names too.
\<close>

theorem blank_names_are_normalised_to_empty:
  "\<forall>E. errors (processed (processRowsWithQualityChecks E [blankNamesRow, dashNamesRow]) ! 0)
          = Some [''Missing or empty county'', ''Missing or empty lender/plaintiff''] \<and>
        normalizedCounty (processed (processRowsWithQualityChecks E [blankNamesRow, dashNamesRow]) ! 0) = [] \<and>
        normalizedLender (processed (processRowsWithQualityChecks E [blankNamesRow, dashNamesRow]) ! 0) = [] \<and>
        isValid (processed (processRowsWithQualityChecks E [blankNamesRow, dashNamesRow]) ! 1) \<and>
        normalizedCounty (processed (processRowsWithQualityChecks E [blankNamesRow, dashNamesRow]) ! 1) = [] \<and>
        normalizedLender (processed (processRowsWithQualityChecks E [blankNamesRow, dashNamesRow]) ! 1) = []"
proof
  fix E
  let ?rows = "[blankNamesRow, dashNamesRow]"
  have e0: "errors (normalizeRecord E (validationOutcome E (0, ?rows ! 0)))
              = Some [''Missing or empty county'', ''Missing or empty lender/plaintiff'']"
    by code_simp
  have c0: "normalizedCounty (normalizeRecord E (validationOutcome E (0, ?rows ! 0))) = []"
    by code_simp
  have l0: "normalizedLender (normalizeRecord E (validationOutcome E (0, ?rows ! 0))) = []"
    by code_simp
  have v1: "isValid (normalizeRecord E (validationOutcome E (1, ?rows ! 1)))"
    by code_simp
  have c1: "normalizedCounty (normalizeRecord E (validationOutcome E (1, ?rows ! 1))) = []"
    by code_simp
  have l1: "normalizedLender (normalizeRecord E (validationOutcome E (1, ?rows ! 1))) = []"
    by code_simp
  have i0: "\<not> isValid (normalizeRecord E (validationOutcome E (0, ?rows ! 0)))"
    by code_simp
  have u: "untouchedBySecondPass normalizedCounty" "untouchedBySecondPass normalizedLender"
    "untouchedBySecondPass isValid"
    by (simp_all add: untouchedBySecondPass_def)
  have len: "0 < length ?rows" "1 < length ?rows"
    by simp_all
  have r0: "processed (processRowsWithQualityChecks E ?rows) ! 0
              = normalizeRecord E (validationOutcome E (0, ?rows ! 0))"
    using len(1) i0 by (rule processed_nth_invalid)
  show "errors (processed (processRowsWithQualityChecks E ?rows) ! 0)
          = Some [''Missing or empty county'', ''Missing or empty lender/plaintiff''] \<and>
        normalizedCounty (processed (processRowsWithQualityChecks E ?rows) ! 0) = [] \<and>
        normalizedLender (processed (processRowsWithQualityChecks E ?rows) ! 0) = [] \<and>
        isValid (processed (processRowsWithQualityChecks E ?rows) ! 1) \<and>
        normalizedCounty (processed (processRowsWithQualityChecks E ?rows) ! 1) = [] \<and>
        normalizedLender (processed (processRowsWithQualityChecks E ?rows) ! 1) = []"
    using processed_nth_untouched [OF u(3) len(2), of E]
      processed_nth_untouched [OF u(1) len(2), of E] processed_nth_untouched [OF u(2) len(2), of E]
      r0 e0 c0 l0 v1 c1 l1
    by simp
qed

section \<open>Properties of the four-week roll-up\<close>





subsection \<open>The association list of statistics\<close>










subsection \<open>The first loop\<close>








subsection \<open>The second loop\<close>










subsection \<open>The sort\<close>







subsection \<open>The comparator of the example engine\<close>




subsection \<open>What the roll-up computes\<close>





section \<open>Properties of the county normaliser\<close>

text \<open>
  Claim C7 does not hold of the code: \<^verbatim>\<open>normalizeCounty\<close> is not idempotent on texts that
  name a county. In \<^verbatim>\<open>Miami Dade County Florida\<close> the state follows without a comma, so no
  suffix is stripped; the final fix-up writes a hyphen between \<^verbatim>\<open>Miami\<close> and \<^verbatim>\<open>Dade\<close>, and
  on the second call that hyphen makes \<^verbatim>\<open>hadHyphen\<close> true, so that every word is joined
  with a hyphen. In \<^verbatim>\<open>new  york city\<close> the key \<^verbatim>\<open>new york city\<close> of the abbreviation
  table is tried before the white space is collapsed: it matches only on the second call.
  This holds on every engine.
\<close>

theorem normalizeCounty_not_idempotent:
  "normalizeCounty E (JStr ''Miami Dade County Florida'') = ''Miami-Dade County Florida'' \<and>
   normalizeCounty E (JStr (normalizeCounty E (JStr ''Miami Dade County Florida'')))
     = ''Miami-Dade-County-Florida'' \<and>
   normalizeCounty E (JStr ''new  york city'') = ''New York City'' \<and>
   normalizeCounty E (JStr (normalizeCounty E (JStr ''new  york city''))) = ''New York''"
proof -
  have 1: "normalizeCounty E (JStr ''Miami Dade County Florida'') = ''Miami-Dade County Florida''"
    by code_simp
  have 2: "normalizeCounty E (JStr ''Miami-Dade County Florida'') = ''Miami-Dade-County-Florida''"
    by code_simp
  have 3: "normalizeCounty E (JStr ''new  york city'') = ''New York City''"
    by code_simp
  have 4: "normalizeCounty E (JStr ''New York City'') = ''New York''"
    by code_simp
  show ?thesis
    by (simp only: 1 2 3 4 simp_thms)
qed

end
